theory Spec2Isabelle
  imports Complex_Main "HOL-Library.Word" "HOL-Library.Char_ord" "HOL-Library.List_Lexorder"
    "HOL-Library.Product_Lexorder"
begin

section \<open>JavaScript values as the front end sees them\<close>

text \<open>
  A string of the program is modelled as a \<^typ>\<open>string\<close>: one \<^typ>\<open>char\<close> per
  UTF-16 code unit, for code units below 256. The white space, the character class of the
  regular expression and the hexadecimal digits are defined on all of them. The built-in
  \<open>toUpperCase\<close>, whose result can leave that range, is not defined here: the functions
  that call it take it as a parameter.

  \<open>JSON.parse\<close> returns a value of type \<open>json\<close>. \<open>JObj\<close> holds the own
  properties of an object in the order \<open>Object.entries\<close> enumerates them; an object
  never has two properties of the same key (\<open>wf_json\<close>). \<open>JNum\<close> holds the
  value of the number that was parsed.
\<close>

datatype json =
    JNull
  | JBool bool
  | JNum rat
  | JStr string
  | JArr "json list"
  | JObj "(string \<times> json) list"

datatype error = SyntaxError | TypeError

fun wf_json :: "json \<Rightarrow> bool" where
  "wf_json (JArr xs) = list_all wf_json xs"
| "wf_json (JObj kvs) = (distinct (map fst kvs) \<and> list_all (\<lambda>kv. wf_json (snd kv)) kvs)"
| "wf_json _ = True"

text \<open>Truthiness, as \<open>||\<close> and \<open>if\<close> test it; \<open>None\<close> is \<open>undefined\<close>.\<close>

fun truthy :: "json \<Rightarrow> bool" where
  "truthy JNull = False"
| "truthy (JBool b) = b"
| "truthy (JNum n) = (n \<noteq> 0)"
| "truthy (JStr s) = (s \<noteq> [])"
| "truthy (JArr _) = True"
| "truthy (JObj _) = True"

text \<open>
  \<open>a || b\<close> on a possibly undefined left operand; \<open>a || b || c\<close> is
  \<open>or_else a (or_else b c)\<close>.
\<close>

fun or_else :: "json option \<Rightarrow> json \<Rightarrow> json" where
  "or_else None d = d"
| "or_else (Some v) d = (if truthy v then v else d)"

text \<open>
  Reading a property \<open>v.k\<close> for one of the names the program reads (\<open>paths\<close>,
  \<open>operationId\<close>, \<open>description\<close>, \<open>summary\<close>, \<open>mcpServers\<close>, \<open>url\<close>): no
  prototype defines them, so only an object can have one; on \<open>null\<close> the read throws.
\<close>

fun get_prop :: "json \<Rightarrow> string \<Rightarrow> error + json option" where
  "get_prop JNull k = Inl TypeError"
| "get_prop (JObj kvs) k = Inr (map_of kvs k)"
| "get_prop _ k = Inr None"

definition digit :: "nat \<Rightarrow> char" where
  "digit d = char_of (48 + d)"

function decimal :: "nat \<Rightarrow> string" where
  "decimal n = (if n < 10 then [digit n] else decimal (n div 10) @ [digit (n mod 10)])"
  by pat_completeness auto
termination
  by (relation "measure id") auto

declare decimal.simps [simp del]

text \<open>The indexed own properties of an array or a string: keys \<open>"0"\<close>, \<open>"1"\<close>, ...\<close>

fun index_entries :: "nat \<Rightarrow> json list \<Rightarrow> (string \<times> json) list" where
  "index_entries i [] = []"
| "index_entries i (x # xs) = (decimal i, x) # index_entries (Suc i) xs"

text \<open>\<open>Object.entries(v)\<close>: throws on \<open>null\<close>; a number or a boolean has no entry.\<close>

fun Object_entries :: "json \<Rightarrow> error + (string \<times> json) list" where
  "Object_entries JNull = Inl TypeError"
| "Object_entries (JBool _) = Inr []"
| "Object_entries (JNum _) = Inr []"
| "Object_entries (JStr s) = Inr (index_entries 0 (map (\<lambda>c. JStr [c]) s))"
| "Object_entries (JArr xs) = Inr (index_entries 0 xs)"
| "Object_entries (JObj kvs) = Inr kvs"

subsection \<open>String primitives\<close>

text \<open>
  White space and line terminators, as \<open>trim\<close> and \<open>parseInt\<close> skip them: below
  256 these are the code units 9 to 13, 32 and 160 (the no-break space).
\<close>

definition isWhiteSpace :: "char \<Rightarrow> bool" where
  "isWhiteSpace c = (of_char c \<in> {9, 10, 11, 12, 13, 32, 160 :: nat})"

definition trim :: "string \<Rightarrow> string" where
  "trim s = rev (dropWhile isWhiteSpace (rev (dropWhile isWhiteSpace s)))"

text \<open>The character class \<open>[a-zA-Z0-9]\<close>.\<close>

definition isAlnum :: "char \<Rightarrow> bool" where
  "isAlnum c =
     (let n = of_char c :: nat
      in (97 \<le> n \<and> n \<le> 122) \<or> (65 \<le> n \<and> n \<le> 90) \<or> (48 \<le> n \<and> n \<le> 57))"

text \<open>\<open>path.replace(/[^a-zA-Z0-9]/g, '_')\<close>\<close>

fun replace_non_alnum :: "string \<Rightarrow> string" where
  "replace_non_alnum [] = []"
| "replace_non_alnum (c # cs) =
     (if isAlnum c then c else CHR ''_'') # replace_non_alnum cs"

section \<open>The application store (\<open>lib/store\<close>)\<close>

datatype protocol = Stdio | Http | Sse

record MCPConfig =
  openaiApiKey :: string
  mcpName :: string
  protocolTypes :: "protocol list"
  description :: string
  version :: string
  author :: string
  baseUrl :: string

definition defaultConfig :: MCPConfig where
  "defaultConfig =
     \<lparr> openaiApiKey = '''',
       mcpName = ''Generated MCP Server'',
       protocolTypes = [Stdio],
       description = ''MCP Server generated from API specification'',
       version = ''1.0.0'',
       author = '''',
       baseUrl = '''' \<rparr>"

text \<open>The data fields of \<open>AppState\<close>; a \<open>TestResponse\<close> is kept as the value received.\<close>

record AppState =
  isGenerating :: bool
  isTesting :: bool
  generationResult :: "string option"
  testResult :: "json option"
  config :: MCPConfig

definition initialState :: AppState where
  "initialState =
     \<lparr> isGenerating = False, isTesting = False, generationResult = None,
       testResult = None, config = defaultConfig \<rparr>"

text \<open>\<open>Partial<MCPConfig>\<close>: a field is \<open>None\<close> when the update does not have it.\<close>

record PartialMCPConfig =
  upd_openaiApiKey :: "string option"
  upd_mcpName :: "string option"
  upd_protocolTypes :: "protocol list option"
  upd_description :: "string option"
  upd_version :: "string option"
  upd_author :: "string option"
  upd_baseUrl :: "string option"

text \<open>The spread \<open>{ ...c, ...updates }\<close>.\<close>

definition spread_config :: "MCPConfig \<Rightarrow> PartialMCPConfig \<Rightarrow> MCPConfig" where
  "spread_config c u =
     \<lparr> openaiApiKey = (case upd_openaiApiKey u of None \<Rightarrow> openaiApiKey c | Some v \<Rightarrow> v),
       mcpName = (case upd_mcpName u of None \<Rightarrow> mcpName c | Some v \<Rightarrow> v),
       protocolTypes = (case upd_protocolTypes u of None \<Rightarrow> protocolTypes c | Some v \<Rightarrow> v),
       description = (case upd_description u of None \<Rightarrow> description c | Some v \<Rightarrow> v),
       version = (case upd_version u of None \<Rightarrow> version c | Some v \<Rightarrow> v),
       author = (case upd_author u of None \<Rightarrow> author c | Some v \<Rightarrow> v),
       baseUrl = (case upd_baseUrl u of None \<Rightarrow> baseUrl c | Some v \<Rightarrow> v) \<rparr>"

text \<open>A whole \<open>MCPConfig\<close> passed where a partial one is expected has every field.\<close>

definition all_fields :: "MCPConfig \<Rightarrow> PartialMCPConfig" where
  "all_fields c =
     \<lparr> upd_openaiApiKey = Some (openaiApiKey c),
       upd_mcpName = Some (mcpName c),
       upd_protocolTypes = Some (protocolTypes c),
       upd_description = Some (description c),
       upd_version = Some (version c),
       upd_author = Some (author c),
       upd_baseUrl = Some (baseUrl c) \<rparr>"

text \<open>
  The \<open>persist\<close> middleware keeps one item of the browser's storage,
  \<open>mcp-generator-storage\<close>: what \<open>partialize\<close> returns for the state, written again
  at every \<open>set\<close>. A new session starts from the initial state with the stored item
  spread over it.
\<close>

record Persisted =
  persisted_config :: MCPConfig

definition partialize :: "AppState \<Rightarrow> Persisted" where
  "partialize s = \<lparr> persisted_config = config s \<rparr>"

record Store =
  state :: AppState
  storage :: "Persisted option"

definition set_state :: "(AppState \<Rightarrow> AppState) \<Rightarrow> Store \<Rightarrow> Store" where
  "set_state f st = \<lparr> state = f (state st), storage = Some (partialize (f (state st))) \<rparr>"

definition rehydrate :: "Persisted option \<Rightarrow> AppState" where
  "rehydrate item =
     (case item of
        None \<Rightarrow> initialState
      | Some p \<Rightarrow> initialState \<lparr> config := persisted_config p \<rparr>)"

definition new_session :: "Persisted option \<Rightarrow> Store" where
  "new_session item = \<lparr> state = rehydrate item, storage = item \<rparr>"

definition setGenerating :: "bool \<Rightarrow> Store \<Rightarrow> Store" where
  "setGenerating generating = set_state (\<lambda>s. s \<lparr> isGenerating := generating \<rparr>)"

definition setTesting :: "bool \<Rightarrow> Store \<Rightarrow> Store" where
  "setTesting testing = set_state (\<lambda>s. s \<lparr> isTesting := testing \<rparr>)"

definition setGenerationResult :: "string option \<Rightarrow> Store \<Rightarrow> Store" where
  "setGenerationResult result = set_state (\<lambda>s. s \<lparr> generationResult := result \<rparr>)"

definition setTestResult :: "json option \<Rightarrow> Store \<Rightarrow> Store" where
  "setTestResult result = set_state (\<lambda>s. s \<lparr> testResult := result \<rparr>)"

definition setConfig :: "MCPConfig \<Rightarrow> Store \<Rightarrow> Store" where
  "setConfig c = set_state (\<lambda>s. s \<lparr> config := c \<rparr>)"

definition updateConfig :: "PartialMCPConfig \<Rightarrow> Store \<Rightarrow> Store" where
  "updateConfig updates = set_state (\<lambda>s. s \<lparr> config := spread_config (config s) updates \<rparr>)"

section \<open>The API client (\<open>lib/api\<close>)\<close>

record RequestConfig =
  openai_api_key :: string
  mcp_name :: string
  protocol_types :: "protocol list"
  req_description :: string
  req_version :: string
  req_author :: string

record GenerateRequest =
  api_spec :: string
  system_prompt :: string
  base_url :: "string option"
  selected_tools :: "string list option"
  req_config :: RequestConfig

subsection \<open>\<open>downloadZip\<close>\<close>

definition hexDigit :: "char \<Rightarrow> nat option" where
  "hexDigit c =
     (let n = of_char c :: nat
      in if 48 \<le> n \<and> n \<le> 57 then Some (n - 48)
         else if 97 \<le> n \<and> n \<le> 102 then Some (n - 87)
         else if 65 \<le> n \<and> n \<le> 70 then Some (n - 55)
         else None)"

definition isHexDigit :: "char \<Rightarrow> bool" where
  "isHexDigit c = (hexDigit c \<noteq> None)"

text \<open>
  \<open>parseInt(s, 16)\<close>: leading white space is skipped, then a sign, then \<open>0x\<close> or
  \<open>0X\<close>; the longest run of hexadecimal digits that follows is the number, and
  \<open>None\<close> (\<open>NaN\<close>) when there is none.
\<close>

definition strip_sign :: "string \<Rightarrow> int \<times> string" where
  "strip_sign s =
     (case s of
         c # r \<Rightarrow> if c = CHR ''-'' then (- 1, r) else if c = CHR ''+'' then (1, r) else (1, s)
       | [] \<Rightarrow> (1, s))"

definition strip_0x :: "string \<Rightarrow> string" where
  "strip_0x s =
     (case s of
         c # d # r \<Rightarrow> if c = CHR ''0'' \<and> (d = CHR ''x'' \<or> d = CHR ''X'') then r else s
       | _ \<Rightarrow> s)"

definition parseInt16 :: "string \<Rightarrow> int option" where
  "parseInt16 s =
     (let (sign, rest) = strip_sign (dropWhile isWhiteSpace s);
          digits = takeWhile isHexDigit (strip_0x rest)
      in if digits = [] then None
         else Some (sign * int (foldl (\<lambda>a c. 16 * a + the (hexDigit c)) 0 digits)))"

text \<open>\<open>s.substr(i, 2)\<close>\<close>

definition substr2 :: "string \<Rightarrow> nat \<Rightarrow> string" where
  "substr2 s i = take 2 (drop i s)"

text \<open>Storing into a \<open>Uint8Array\<close>: \<open>NaN\<close> is stored as 0, a number modulo 256.\<close>

definition toUint8 :: "int option \<Rightarrow> 8 word" where
  "toUint8 v = (case v of None \<Rightarrow> 0 | Some n \<Rightarrow> word_of_int n)"

text \<open>\<open>bytes[k] = v\<close>: a write past the end of a typed array does nothing.\<close>

definition store_byte :: "8 word list \<Rightarrow> nat \<Rightarrow> 8 word \<Rightarrow> 8 word list" where
  "store_byte bytes k v = (if k < length bytes then bytes[k := v] else bytes)"

text \<open>The \<open>for\<close> loop, from index \<open>i\<close>.\<close>

function fill_bytes :: "string \<Rightarrow> nat \<Rightarrow> 8 word list \<Rightarrow> 8 word list" where
  "fill_bytes zipData i bytes =
     (if i < length zipData
      then fill_bytes zipData (i + 2)
             (store_byte bytes (i div 2) (toUint8 (parseInt16 (substr2 zipData i))))
      else bytes)"
  by pat_completeness auto
termination
  by (relation "measure (\<lambda>(zipData, i, bytes). length zipData - i)") auto

declare fill_bytes.simps [simp del]

text \<open>
  What \<open>downloadZip\<close> hands to the browser: the blob and the name of the download.
  \<open>new Uint8Array(n / 2)\<close> has \<open>n div 2\<close> elements, all zero.
\<close>

record Download =
  blob_bytes :: "8 word list"
  blob_type :: string
  download_name :: string

definition downloadZip :: "string \<Rightarrow> string \<Rightarrow> Download" where
  "downloadZip zipData filename =
     \<lparr> blob_bytes = fill_bytes zipData 0 (replicate (length zipData div 2) 0),
       blob_type = ''application/zip'',
       download_name = filename \<rparr>"

section \<open>The generator component: \<open>parseApiSpec\<close>\<close>

text \<open>
  \<open>ParsedTool\<close>. The casts \<open>as string\<close> are erased when the program runs, so
  \<open>name\<close> and \<open>description\<close> (here \<open>tool_name\<close>, \<open>tool_description\<close>) hold
  whatever truthy value the document gives.
\<close>

record ParsedTool =
  tool_id :: string
  tool_name :: json
  tool_description :: json
  tool_method :: string
  tool_path :: string
  selected :: bool

text \<open>
  The body of the inner \<open>forEach\<close>: the tool pushed for one \<open>[method, operation]\<close>.
  \<open>toUpperCase\<close> is the built-in \<open>String.prototype.toUpperCase\<close>.
\<close>

definition operation_tool :: "(string \<Rightarrow> string) \<Rightarrow> string \<Rightarrow> string \<Rightarrow> json \<Rightarrow> error + ParsedTool" where
  "operation_tool toUpperCase pth mth operation =
     (case get_prop operation ''operationId'' of
        Inl e \<Rightarrow> Inl e
      | Inr oid \<Rightarrow>
          let operationId = or_else oid (JStr (mth @ ''_'' @ replace_non_alnum pth)) in
          (case get_prop operation ''description'' of
             Inl e \<Rightarrow> Inl e
           | Inr d \<Rightarrow>
               (case get_prop operation ''summary'' of
                  Inl e \<Rightarrow> Inl e
                | Inr s \<Rightarrow>
                    let desc = or_else d (or_else s (JStr (toUpperCase mth @ '' '' @ pth)))
                    in Inr \<lparr> tool_id = mth @ ''_'' @ pth,
                             tool_name = operationId,
                             tool_description = desc,
                             tool_method = toUpperCase mth,
                             tool_path = pth,
                             selected = True \<rparr>)))"

text \<open>The two nested \<open>forEach\<close> loops, pushing onto \<open>tools\<close>.\<close>

fun forEach_methods :: "(string \<Rightarrow> string) \<Rightarrow> string \<Rightarrow> (string \<times> json) list \<Rightarrow> ParsedTool list
    \<Rightarrow> error + ParsedTool list" where
  "forEach_methods toUpperCase pth [] tools = Inr tools"
| "forEach_methods toUpperCase pth ((mth, operation) # rest) tools =
     (case operation_tool toUpperCase pth mth operation of
        Inl e \<Rightarrow> Inl e
      | Inr t \<Rightarrow> forEach_methods toUpperCase pth rest (tools @ [t]))"

fun forEach_paths :: "(string \<Rightarrow> string) \<Rightarrow> (string \<times> json) list \<Rightarrow> ParsedTool list
    \<Rightarrow> error + ParsedTool list" where
  "forEach_paths toUpperCase [] tools = Inr tools"
| "forEach_paths toUpperCase ((pth, methods) # rest) tools =
     (case Object_entries methods of
        Inl e \<Rightarrow> Inl e
      | Inr ms \<Rightarrow>
          (case forEach_methods toUpperCase pth ms tools of
             Inl e \<Rightarrow> Inl e
           | Inr tools' \<Rightarrow> forEach_paths toUpperCase rest tools'))"

text \<open>The \<open>try\<close> block after \<open>JSON.parse\<close>: the tools of a parsed document.\<close>

definition parse_tools :: "(string \<Rightarrow> string) \<Rightarrow> json \<Rightarrow> error + ParsedTool list" where
  "parse_tools toUpperCase spec =
     (case get_prop spec ''paths'' of
        Inl e \<Rightarrow> Inl e
      | Inr None \<Rightarrow> Inr []
      | Inr (Some paths) \<Rightarrow>
          if truthy paths
          then (case Object_entries paths of
                  Inl e \<Rightarrow> Inl e
                | Inr ps \<Rightarrow> forEach_paths toUpperCase ps [])
          else Inr [])"

text \<open>
  The state of the component. \<open>baseUrlField\<close> is the component's own \<open>baseUrl\<close>
  (the text of the Base URL field); the store's default is \<open>baseUrl (config s)\<close>.
\<close>

record GeneratorState =
  apiSpec :: string
  systemPrompt :: string
  baseUrlField :: string
  parsedTools :: "ParsedTool list"
  showToolSelection :: bool

definition initialGenerator :: GeneratorState where
  "initialGenerator =
     \<lparr> apiSpec = '''', systemPrompt = '''', baseUrlField = '''', parsedTools = [],
       showToolSelection = False \<rparr>"

text \<open>What a handler does to the world outside the component and the store.\<close>

datatype effect =
    Alert string
  | CallGenerateMCP GenerateRequest
  | DownloadBlob Download
  | ConsoleError string

text \<open>
  \<open>parseApiSpec\<close>. \<open>toUpperCase\<close> and \<open>JSON_parse\<close> are the built-ins; the parser
  gives \<open>None\<close> when it throws a \<open>SyntaxError\<close>. Any exception in the \<open>try\<close> block
  ends in the same alert and leaves the state as it was.
\<close>

definition parseApiSpec :: "(string \<Rightarrow> string) \<Rightarrow> (string \<Rightarrow> json option) \<Rightarrow> GeneratorState
    \<Rightarrow> GeneratorState \<times> effect list" where
  "parseApiSpec toUpperCase JSON_parse g =
     (if trim (apiSpec g) = []
      then (g, [Alert ''Please provide an API specification first''])
      else
        (case JSON_parse (apiSpec g) of
           None \<Rightarrow> (g, [Alert ''Invalid JSON in API specification. Please check your JSON syntax.''])
         | Some spec \<Rightarrow>
             (case parse_tools toUpperCase spec of
                Inl e \<Rightarrow> (g, [Alert ''Invalid JSON in API specification. Please check your JSON syntax.''])
              | Inr tools \<Rightarrow> (g \<lparr> parsedTools := tools, showToolSelection := True \<rparr>, []))))"

definition toggleToolSelection :: "string \<Rightarrow> GeneratorState \<Rightarrow> GeneratorState" where
  "toggleToolSelection toolId g =
     g \<lparr> parsedTools :=
           map (\<lambda>tool. if tool_id tool = toolId then tool \<lparr> selected := \<not> selected tool \<rparr> else tool)
             (parsedTools g) \<rparr>"

definition selectAllTools :: "GeneratorState \<Rightarrow> GeneratorState" where
  "selectAllTools g = g \<lparr> parsedTools := map (\<lambda>tool. tool \<lparr> selected := True \<rparr>) (parsedTools g) \<rparr>"

definition deselectAllTools :: "GeneratorState \<Rightarrow> GeneratorState" where
  "deselectAllTools g = g \<lparr> parsedTools := map (\<lambda>tool. tool \<lparr> selected := False \<rparr>) (parsedTools g) \<rparr>"

text \<open>The request \<open>handleGenerate\<close> builds from the component and the stored configuration.\<close>

definition build_request :: "MCPConfig \<Rightarrow> GeneratorState \<Rightarrow> GenerateRequest" where
  "build_request c g =
     \<lparr> api_spec = apiSpec g,
       system_prompt = systemPrompt g,
       base_url =
         (if trim (baseUrlField g) \<noteq> [] then Some (trim (baseUrlField g))
          else if baseUrl c \<noteq> [] then Some (baseUrl c)
          else None),
       selected_tools =
         (if showToolSelection g
          then Some (map tool_id (filter selected (parsedTools g)))
          else None),
       req_config =
         \<lparr> openai_api_key = openaiApiKey c,
           mcp_name = mcpName c,
           protocol_types = protocolTypes c,
           req_description = description c,
           req_version = version c,
           req_author = author c \<rparr> \<rparr>"

text \<open>
  \<open>handleGenerate\<close>. \<open>generateMCP\<close> is the call to the back end: \<open>Inr\<close> the
  \<open>zip_data\<close> of its answer, \<open>Inl\<close> the message of the error it throws.
\<close>

definition handleGenerate :: "(GenerateRequest \<Rightarrow> string + string) \<Rightarrow> GeneratorState \<Rightarrow> Store \<Rightarrow> Store \<times> effect list" where
  "handleGenerate generateMCP g st =
     (if trim (apiSpec g) = [] \<or> trim (systemPrompt g) = []
      then (st, [Alert ''Please fill in both API specification and system prompt''])
      else if showToolSelection g \<and> length (filter selected (parsedTools g)) = 0
      then (st, [Alert ''Please select at least one tool to generate''])
      else
        (let st1 = setGenerating True st;
             request = build_request (config (state st1)) g
         in case generateMCP request of
              Inr zip_data \<Rightarrow>
                (setGenerating False (setGenerationResult (Some zip_data) st1),
                 [CallGenerateMCP request, DownloadBlob (downloadZip zip_data ''mcp_project.zip'')])
            | Inl message \<Rightarrow>
                (setGenerating False st1,
                 [CallGenerateMCP request, ConsoleError ''Generation failed:'',
                  Alert (''Failed to generate MCP: '' @ message)])))"

section \<open>The configuration component: \<open>MCPConfig\<close>\<close>

text \<open>
  The component edits a copy, \<open>tempConfig\<close>, of the stored configuration; the effect
  hook copies the stored configuration into it whenever that changes.
\<close>

definition toggleProtocol :: "protocol \<Rightarrow> bool \<Rightarrow> MCPConfig \<Rightarrow> MCPConfig" where
  "toggleProtocol p checked prev =
     prev \<lparr> protocolTypes :=
              (if checked then protocolTypes prev @ [p]
               else filter (\<lambda>q. q \<noteq> p) (protocolTypes prev)) \<rparr>"

text \<open>
  \<open>hasChanges\<close> compares the two serialisations; the two objects have the same keys in
  the same order, so they differ when a field does.
\<close>

definition hasChanges :: "MCPConfig \<Rightarrow> MCPConfig \<Rightarrow> bool" where
  "hasChanges tempConfig c = (tempConfig \<noteq> c)"

definition saveDisabled :: "MCPConfig \<Rightarrow> MCPConfig \<Rightarrow> bool" where
  "saveDisabled tempConfig c = (\<not> hasChanges tempConfig c \<or> length (protocolTypes tempConfig) = 0)"

definition handleSave :: "MCPConfig \<Rightarrow> Store \<Rightarrow> Store \<times> effect list" where
  "handleSave tempConfig st =
     (updateConfig (all_fields tempConfig) st, [Alert ''Configuration saved successfully!''])"

section \<open>The tester component: \<open>checkMcpStatus\<close>\<close>

datatype mcp_status = Unknown | Active | Inactive

text \<open>
  The call \<open>fetch(url, { method: 'GET', signal: AbortSignal.timeout(5000) })\<close>, and what
  comes of it: a response with its \<open>ok\<close> flag, or a rejection (the network failed, or
  the signal aborted the request when its time was up).
\<close>

record FetchCall =
  fetch_url :: json
  fetch_method :: string
  fetch_timeout_ms :: nat

datatype fetch_outcome = Response bool | Rejected

definition checkMcpStatus :: "(string \<Rightarrow> json option) \<Rightarrow> (FetchCall \<Rightarrow> fetch_outcome) \<Rightarrow> string \<Rightarrow> mcp_status \<times> FetchCall list" where
  "checkMcpStatus JSON_parse fetch configText =
     (if trim configText = [] then (Unknown, [])
      else
        (case JSON_parse configText of
           None \<Rightarrow> (Unknown, [])
         | Some cfg \<Rightarrow>
             (case get_prop cfg ''mcpServers'' of
                Inl e \<Rightarrow> (Unknown, [])
              | Inr ms \<Rightarrow>
                  (case Object_entries (or_else ms (JObj [])) of
                     Inl e \<Rightarrow> (Unknown, [])
                   | Inr [] \<Rightarrow> (Inactive, [])
                   | Inr ((k, serverConfig) # others) \<Rightarrow>
                       (case get_prop serverConfig ''url'' of
                          Inl e \<Rightarrow> (Unknown, [])
                        | Inr None \<Rightarrow> (Inactive, [])
                        | Inr (Some url) \<Rightarrow>
                            if \<not> truthy url then (Inactive, [])
                            else
                              (let call = \<lparr> fetch_url = url, fetch_method = ''GET'',
                                             fetch_timeout_ms = 5000 \<rparr>
                               in case fetch call of
                                    Response ok \<Rightarrow> (if ok then Active else Inactive, [call])
                                  | Rejected \<Rightarrow> (Inactive, [call])))))))"

section \<open>The application as a whole\<close>

text \<open>
  The store, the copy the configuration component edits, and the generator component.
  An event is what the user does; \<open>Reload\<close> opens a new browser session on the same
  storage.
\<close>

record App =
  app_store :: Store
  tempConfig :: MCPConfig
  generator :: GeneratorState

datatype event =
    EditOpenaiApiKey string
  | EditMcpName string
  | CheckProtocol protocol bool
  | EditVersion string
  | EditAuthor string
  | EditDefaultBaseUrl string
  | EditDescription string
  | ClickSave
  | ClickReset
  | EditApiSpec string
  | EditSystemPrompt string
  | EditBaseUrl string
  | ClickLoadApis
  | CheckTool string
  | ClickSelectAll
  | ClickDeselectAll
  | ClickGenerate
  | Reload

record Env =
  env_toUpperCase :: "string \<Rightarrow> string"
  env_JSON_parse :: "string \<Rightarrow> json option"
  env_generateMCP :: "GenerateRequest \<Rightarrow> string + string"

definition initialApp :: App where
  "initialApp =
     \<lparr> app_store = new_session None, tempConfig = defaultConfig, generator = initialGenerator \<rparr>"

text \<open>After a handler has run, the effect hook brings \<open>tempConfig\<close> up to date.\<close>

definition with_store :: "Store \<Rightarrow> App \<Rightarrow> App" where
  "with_store st a =
     a \<lparr> app_store := st,
         tempConfig := (if config (state st) = config (state (app_store a)) then tempConfig a
                        else config (state st)) \<rparr>"

fun step :: "Env \<Rightarrow> event \<Rightarrow> App \<Rightarrow> App \<times> effect list" where
  "step env (EditOpenaiApiKey v) a = (a \<lparr> tempConfig := (tempConfig a) \<lparr> openaiApiKey := v \<rparr> \<rparr>, [])"
| "step env (EditMcpName v) a = (a \<lparr> tempConfig := (tempConfig a) \<lparr> mcpName := v \<rparr> \<rparr>, [])"
| "step env (CheckProtocol p checked) a = (a \<lparr> tempConfig := toggleProtocol p checked (tempConfig a) \<rparr>, [])"
| "step env (EditVersion v) a = (a \<lparr> tempConfig := (tempConfig a) \<lparr> version := v \<rparr> \<rparr>, [])"
| "step env (EditAuthor v) a = (a \<lparr> tempConfig := (tempConfig a) \<lparr> author := v \<rparr> \<rparr>, [])"
| "step env (EditDefaultBaseUrl v) a = (a \<lparr> tempConfig := (tempConfig a) \<lparr> baseUrl := v \<rparr> \<rparr>, [])"
| "step env (EditDescription v) a = (a \<lparr> tempConfig := (tempConfig a) \<lparr> description := v \<rparr> \<rparr>, [])"
| "step env ClickSave a =
     (if saveDisabled (tempConfig a) (config (state (app_store a))) then (a, [])
      else (let (st, effects) = handleSave (tempConfig a) (app_store a)
            in (with_store st a, effects)))"
| "step env ClickReset a =
     (if hasChanges (tempConfig a) (config (state (app_store a)))
      then (a \<lparr> tempConfig := config (state (app_store a)) \<rparr>, [])
      else (a, []))"
| "step env (EditApiSpec v) a = (a \<lparr> generator := (generator a) \<lparr> apiSpec := v \<rparr> \<rparr>, [])"
| "step env (EditSystemPrompt v) a = (a \<lparr> generator := (generator a) \<lparr> systemPrompt := v \<rparr> \<rparr>, [])"
| "step env (EditBaseUrl v) a = (a \<lparr> generator := (generator a) \<lparr> baseUrlField := v \<rparr> \<rparr>, [])"
| "step env ClickLoadApis a =
     (if trim (apiSpec (generator a)) = [] then (a, [])
      else (let (g, effects) = parseApiSpec (env_toUpperCase env) (env_JSON_parse env) (generator a)
            in (a \<lparr> generator := g \<rparr>, effects)))"
| "step env (CheckTool toolId) a = (a \<lparr> generator := toggleToolSelection toolId (generator a) \<rparr>, [])"
| "step env ClickSelectAll a = (a \<lparr> generator := selectAllTools (generator a) \<rparr>, [])"
| "step env ClickDeselectAll a = (a \<lparr> generator := deselectAllTools (generator a) \<rparr>, [])"
| "step env ClickGenerate a =
     (if isGenerating (state (app_store a)) \<or> trim (apiSpec (generator a)) = []
         \<or> trim (systemPrompt (generator a)) = []
      then (a, [])
      else (let (st, effects) = handleGenerate (env_generateMCP env) (generator a) (app_store a)
            in (with_store st a, effects)))"
| "step env Reload a =
     (let st = new_session (storage (app_store a))
      in (\<lparr> app_store = st, tempConfig = config (state st), generator = initialGenerator \<rparr>, []))"

text \<open>A run of the application: the state reached and everything done on the way.\<close>

fun run :: "Env \<Rightarrow> event list \<Rightarrow> App \<Rightarrow> App \<times> effect list" where
  "run env [] a = (a, [])"
| "run env (e # es) a =
     (let (a1, effects1) = step env e a;
          (a2, effects2) = run env es a1
      in (a2, effects1 @ effects2))"

section \<open>The operations of a document\<close>

text \<open>
  The entries \<open>Object.entries\<close> returns where it returns, and the operations of a
  parsed document: every \<open>(path, method, operation)\<close> that the \<open>paths\<close> member
  declares, in the order the entries are enumerated. The theorems below state what
  \<open>parseApiSpec\<close> makes of each.
\<close>

definition entries_of :: "json \<Rightarrow> (string \<times> json) list" where
  "entries_of v = (case Object_entries v of Inl e \<Rightarrow> [] | Inr es \<Rightarrow> es)"

definition operations :: "json \<Rightarrow> (string \<times> string \<times> json) list" where
  "operations spec =
     (case get_prop spec ''paths'' of
        Inr (Some paths) \<Rightarrow>
          if truthy paths
          then concat (map (\<lambda>(pth, methods).
                              map (\<lambda>(mth, operation). (pth, mth, operation)) (entries_of methods))
                         (entries_of paths))
          else []
      | _ \<Rightarrow> [])"

text \<open>
  A property counts as given when its value is truthy: \<open>x.k || d\<close> is the value of
  \<open>k\<close> when it is given, and \<open>d\<close> otherwise.
\<close>

definition given :: "json \<Rightarrow> string \<Rightarrow> json option" where
  "given v k =
     (case get_prop v k of
        Inr (Some w) \<Rightarrow> if truthy w then Some w else None
      | _ \<Rightarrow> None)"


subsection \<open>Example documents\<close>

text \<open>
  What the built-in \<open>toUpperCase\<close> does on ASCII text. It stands for the built-in in
  the examples, whose method keys are ASCII.
\<close>

definition ascii_toUpperChar :: "char \<Rightarrow> char" where
  "ascii_toUpperChar c =
     (let n = of_char c :: nat in if 97 \<le> n \<and> n \<le> 122 then char_of (n - 32) else c)"

definition ascii_toUpperCase :: "string \<Rightarrow> string" where
  "ascii_toUpperCase s = map ascii_toUpperChar s"

definition users_api :: json where
  "users_api =
     JObj [(''openapi'', JStr ''3.0.0''),
           (''paths'', JObj
              [(''/users/{id}'', JObj
                  [(''get'', JObj [(''operationId'', JStr ''getUser''),
                                   (''summary'', JStr ''Fetch one user'')]),
                   (''delete'', JObj [(''description'', JStr ''Remove a user'')])]),
               (''/users'', JObj [(''post'', JObj [])])])]"

definition users_tools :: "ParsedTool list" where
  "users_tools =
     [\<lparr> tool_id = ''get_/users/{id}'', tool_name = JStr ''getUser'',
         tool_description = JStr ''Fetch one user'', tool_method = ''GET'',
         tool_path = ''/users/{id}'', selected = True \<rparr>,
      \<lparr> tool_id = ''delete_/users/{id}'', tool_name = JStr ''delete__users__id_'',
         tool_description = JStr ''Remove a user'', tool_method = ''DELETE'',
         tool_path = ''/users/{id}'', selected = True \<rparr>,
      \<lparr> tool_id = ''post_/users'', tool_name = JStr ''post__users'',
         tool_description = JStr ''POST /users'', tool_method = ''POST'',
         tool_path = ''/users'', selected = True \<rparr>]"

text \<open>An operation whose \<open>operationId\<close> is the empty string.\<close>

definition empty_operationId_api :: json where
  "empty_operationId_api =
     JObj [(''paths'', JObj [(''/users'', JObj [(''get'', JObj [(''operationId'', JStr '''')])])])]"

text \<open>An operation whose \<open>description\<close> is the empty string, with a summary.\<close>

definition empty_description_api :: json where
  "empty_description_api =
     JObj [(''paths'', JObj
              [(''/users'', JObj [(''get'', JObj [(''description'', JStr ''''),
                                                  (''summary'', JStr ''List users'')])])])]"

text \<open>Two paths written in descending order.\<close>

definition unsorted_api :: json where
  "unsorted_api =
     JObj [(''paths'', JObj [(''/b'', JObj [(''get'', JObj [])]),
                             (''/a'', JObj [(''get'', JObj [])])])]"


definition unsorted_tools :: "ParsedTool list" where
  "unsorted_tools =
     [\<lparr> tool_id = ''get_/b'', tool_name = JStr ''get__b'', tool_description = JStr ''GET /b'',
         tool_method = ''GET'', tool_path = ''/b'', selected = True \<rparr>,
      \<lparr> tool_id = ''get_/a'', tool_name = JStr ''get__a'', tool_description = JStr ''GET /a'',
         tool_method = ''GET'', tool_path = ''/a'', selected = True \<rparr>]"


text \<open>
  The text of \<open>users_api\<close>, and a parser that knows this one text: what \<open>JSON.parse\<close>
  does on it.
\<close>

definition users_text :: string where
  \<open>users_text = ''{"openapi":"3.0.0","paths":{"/users/{id}":{"get":{"operationId":"getUser","summary":"Fetch one user"},"delete":{"description":"Remove a user"}},"/users":{"post":{}}}}''\<close>

definition users_JSON_parse :: "string \<Rightarrow> json option" where
  "users_JSON_parse s = (if s = users_text then Some users_api else None)"

text \<open>Two components holding that text: a fresh one, and one with tools left from before.\<close>

definition fresh_generator :: GeneratorState where
  "fresh_generator = initialGenerator \<lparr> apiSpec := users_text \<rparr>"

definition used_generator :: GeneratorState where
  "used_generator =
     initialGenerator \<lparr> apiSpec := users_text, parsedTools := unsorted_tools,
                        showToolSelection := True \<rparr>"

text \<open>
  A component ready to generate, with the tools of \<open>users_api\<close> loaded; the same with
  every tool deselected; and a back end that answers every request with one archive.
\<close>

definition ready_generator :: GeneratorState where
  "ready_generator =
     initialGenerator \<lparr> apiSpec := users_text, systemPrompt := ''Answer questions about users.'',
                        parsedTools := users_tools, showToolSelection := True \<rparr>"

definition deselected_generator :: GeneratorState where
  "deselected_generator = deselectAllTools ready_generator"

definition archive_backend :: "GenerateRequest \<Rightarrow> string + string" where
  "archive_backend request = Inr ''504b0506''"

text \<open>A store whose configuration has a default base URL.\<close>

definition store_with_default :: Store where
  "store_with_default =
     updateConfig ((all_fields defaultConfig) \<lparr> upd_baseUrl := Some ''https://api.example.com'' \<rparr>)
       (new_session None)"

text \<open>
  A session of the application: the user unchecks STDIO and tries to save, checks HTTP
  and saves, fills in the generator and generates, then opens the page again.
\<close>

definition example_env :: Env where
  "example_env =
     \<lparr> env_toUpperCase = ascii_toUpperCase, env_JSON_parse = users_JSON_parse,
       env_generateMCP = archive_backend \<rparr>"

definition unchecked_app :: App where
  "unchecked_app = fst (run example_env [CheckProtocol Stdio False] initialApp)"

definition example_session :: "event list" where
  "example_session =
     [CheckProtocol Stdio False, ClickSave, CheckProtocol Http True, ClickSave,
      EditApiSpec users_text, EditSystemPrompt ''Answer questions about users.'',
      ClickGenerate, Reload]"

definition example_request :: GenerateRequest where
  "example_request =
     build_request (defaultConfig \<lparr> protocolTypes := [Http] \<rparr>)
       (initialGenerator \<lparr> apiSpec := users_text,
                           systemPrompt := ''Answer questions about users.'' \<rparr>)"

text \<open>The invariant of the application: the stored configuration, in the store and in
  the browser's storage, names a transport.\<close>

definition has_transport :: "App \<Rightarrow> bool" where
  "has_transport a =
     (protocolTypes (config (state (app_store a))) \<noteq> [] \<and>
      (case storage (app_store a) of
         None \<Rightarrow> True
       | Some p \<Rightarrow> protocolTypes (persisted_config p) \<noteq> []))"

text \<open>A store in the middle of work, and an update that has the server's name only.\<close>

definition busy_store :: Store where
  "busy_store = setGenerationResult (Some ''504b0506'') (setGenerating True (new_session None))"

definition rename_only :: PartialMCPConfig where
  "rename_only =
     \<lparr> upd_openaiApiKey = None, upd_mcpName = Some ''Users MCP'', upd_protocolTypes = None,
       upd_description = None, upd_version = None, upd_author = None, upd_baseUrl = None \<rparr>"

subsection \<open>Example tester configurations\<close>

definition two_servers_text :: string where
  \<open>two_servers_text = ''{"mcpServers":{"local":{"url":"http://localhost:8000/mcp"},"remote":{"url":"https://mcp.example.com"}}}''\<close>

definition two_servers :: json where
  "two_servers =
     JObj [(''mcpServers'', JObj [(''local'', JObj [(''url'', JStr ''http://localhost:8000/mcp'')]),
                                  (''remote'', JObj [(''url'', JStr ''https://mcp.example.com'')])])]"

definition no_servers_text :: string where
  \<open>no_servers_text = ''{"mcpServers":{}}''\<close>

definition command_server_text :: string where
  \<open>command_server_text = ''{"mcpServers":{"local":{"command":"python"}}}''\<close>

definition null_server_text :: string where
  \<open>null_server_text = ''{"mcpServers":{"local":null}}''\<close>

text \<open>What \<open>JSON.parse\<close> does on these texts, and on one that is not JSON.\<close>

definition tester_JSON_parse :: "string \<Rightarrow> json option" where
  "tester_JSON_parse =
     map_of
       [(two_servers_text, two_servers),
        (no_servers_text, JObj [(''mcpServers'', JObj [])]),
        (command_server_text,
           JObj [(''mcpServers'', JObj [(''local'', JObj [(''command'', JStr ''python'')])])]),
        (null_server_text, JObj [(''mcpServers'', JObj [(''local'', JNull)])]),
        (''null'', JNull)]"

text \<open>A network where only the local server answers, and one where only the remote does.\<close>

definition local_call :: FetchCall where
  "local_call = \<lparr> fetch_url = JStr ''http://localhost:8000/mcp'', fetch_method = ''GET'',
                   fetch_timeout_ms = 5000 \<rparr>"

definition local_up :: "FetchCall \<Rightarrow> fetch_outcome" where
  "local_up call = (if fetch_url call = JStr ''http://localhost:8000/mcp'' then Response True else Rejected)"

definition remote_up :: "FetchCall \<Rightarrow> fetch_outcome" where
  "remote_up call = (if fetch_url call = JStr ''https://mcp.example.com'' then Response True else Rejected)"

section \<open>Properties of the model\<close>

subsection \<open>Keys of entries are distinct\<close>

lemma of_char_digit: "d < 10 \<Longrightarrow> of_char (digit d) = 48 + d"
  by (simp add: digit_def)

lemma digit_inj: "d < 10 \<Longrightarrow> e < 10 \<Longrightarrow> digit d = digit e \<Longrightarrow> d = e"
  by (metis of_char_digit add_left_cancel)

lemma decimal_nonempty: "decimal n \<noteq> []"
  by (subst decimal.simps) simp

lemma decimal_length_ge2: "10 \<le> n \<Longrightarrow> 2 \<le> length (decimal n)"
  using decimal_nonempty [of "n div 10"]
  by (subst decimal.simps) (simp add: Suc_le_eq)

lemma decimal_small: "n < 10 \<Longrightarrow> decimal n = [digit n]"
  by (subst decimal.simps) simp

lemma decimal_big: "10 \<le> n \<Longrightarrow> decimal n = decimal (n div 10) @ [digit (n mod 10)]"
  by (subst decimal.simps) simp

lemma decimal_inj: "decimal m = decimal n \<Longrightarrow> m = n"
proof (induction m arbitrary: n rule: decimal.induct)
  case (1 m)
  show ?case
  proof (cases "m < 10")
    case True
    show ?thesis
    proof (cases "n < 10")
      case True
      with \<open>m < 10\<close> "1.prems" show ?thesis
        by (simp add: decimal_small digit_inj)
    next
      case False
      then have "2 \<le> length (decimal n)" by (simp add: decimal_length_ge2)
      moreover have "length (decimal m) = 1" using \<open>m < 10\<close> by (simp add: decimal_small)
      moreover have "length (decimal m) = length (decimal n)" using "1.prems" by simp
      ultimately show ?thesis by simp
    qed
  next
    case False
    show ?thesis
    proof (cases "n < 10")
      case True
      from False have "2 \<le> length (decimal m)" by (simp add: decimal_length_ge2)
      moreover have "length (decimal n) = 1" using True by (simp add: decimal_small)
      moreover have "length (decimal m) = length (decimal n)" using "1.prems" by simp
      ultimately show ?thesis by simp
    next
      case nbig: False
      with False "1.prems" have "decimal (m div 10) = decimal (n div 10)"
        and d: "digit (m mod 10) = digit (n mod 10)"
        by (simp_all add: decimal_big)
      with "1.IH" False have "m div 10 = n div 10" by simp
      moreover from d have "m mod 10 = n mod 10" by (simp add: digit_inj)
      ultimately show ?thesis by (metis div_mult_mod_eq)
    qed
  qed
qed

lemma index_entries_keys: "map fst (index_entries i xs) = map decimal [i ..< i + length xs]"
proof (induction xs arbitrary: i)
  case Nil
  then show ?case by simp
next
  case (Cons x xs)
  then show ?case by (simp add: upt_rec)
qed

lemma index_entries_distinct: "distinct (map fst (index_entries i xs))"
  by (simp add: index_entries_keys distinct_map inj_on_def decimal_inj)

lemma index_entries_values: "map snd (index_entries i xs) = xs"
  by (induction xs arbitrary: i) simp_all

lemma entries_of_distinct: "wf_json v \<Longrightarrow> distinct (map fst (entries_of v))"
  by (cases v) (simp_all add: entries_of_def index_entries_distinct)

lemma entries_of_wf: "wf_json v \<Longrightarrow> (k, w) \<in> set (entries_of v) \<Longrightarrow> wf_json w"
proof (cases v)
  case (JStr s)
  assume "(k, w) \<in> set (entries_of v)"
  then have "w \<in> set (map snd (index_entries 0 (map (\<lambda>c. JStr [c]) s)))"
    using JStr by (force simp: entries_of_def)
  then show ?thesis by (auto simp: index_entries_values)
next
  case (JArr xs)
  assume "wf_json v" "(k, w) \<in> set (entries_of v)"
  then have "w \<in> set (map snd (index_entries 0 xs))" "list_all wf_json xs"
    using JArr by (force simp: entries_of_def)+
  then show ?thesis by (auto simp: index_entries_values list_all_iff)
next
  case (JObj kvs)
  assume "wf_json v" "(k, w) \<in> set (entries_of v)"
  then show ?thesis using JObj by (auto simp: entries_of_def list_all_iff)
qed (simp_all add: entries_of_def)

subsection \<open>The loops of \<open>parseApiSpec\<close> push one tool per operation, in order\<close>

lemma forEach_methods_char:
  "forEach_methods toUpperCase pth ms acc = Inr tools \<Longrightarrow>
   \<exists>ts. tools = acc @ ts \<and>
     list_all2 (\<lambda>t (m, op). operation_tool toUpperCase pth m op = Inr t) ts ms"
proof (induction ms arbitrary: acc)
  case Nil
  then show ?case by simp
next
  case (Cons a ms)
  obtain m op where a: "a = (m, op)" by (cases a)
  from Cons.prems a obtain t where t: "operation_tool toUpperCase pth m op = Inr t"
    and rest: "forEach_methods toUpperCase pth ms (acc @ [t]) = Inr tools"
    by (auto split: sum.splits)
  from Cons.IH [OF rest] obtain ts where "tools = (acc @ [t]) @ ts"
    and "list_all2 (\<lambda>t (m, op). operation_tool toUpperCase pth m op = Inr t) ts ms" by blast
  with t a show ?case by (intro exI [of _ "t # ts"]) simp
qed

lemma forEach_paths_char:
  "forEach_paths toUpperCase ps acc = Inr tools \<Longrightarrow>
   \<exists>ts. tools = acc @ ts \<and>
     list_all2 (\<lambda>t (p, m, op). operation_tool toUpperCase p m op = Inr t) ts
       (concat (map (\<lambda>(p, ms). map (\<lambda>(m, op). (p, m, op)) (entries_of ms)) ps))"
proof (induction ps arbitrary: acc)
  case Nil
  then show ?case by simp
next
  case (Cons a ps)
  obtain p v where a: "a = (p, v)" by (cases a)
  from Cons.prems a obtain ms mid where ms: "Object_entries v = Inr ms"
    and inner: "forEach_methods toUpperCase p ms acc = Inr mid"
    and rest: "forEach_paths toUpperCase ps mid = Inr tools"
    by (auto split: sum.splits)
  from forEach_methods_char [OF inner] obtain ts1 where mid: "mid = acc @ ts1"
    and l1: "list_all2 (\<lambda>t (m, op). operation_tool toUpperCase p m op = Inr t) ts1 ms" by blast
  from Cons.IH [OF rest] obtain ts2 where tools: "tools = mid @ ts2"
    and l2: "list_all2 (\<lambda>t (p, m, op). operation_tool toUpperCase p m op = Inr t) ts2
       (concat (map (\<lambda>(p, ms). map (\<lambda>(m, op). (p, m, op)) (entries_of ms)) ps))" by blast
  from l1 have l1': "list_all2 (\<lambda>t (p, m, op). operation_tool toUpperCase p m op = Inr t) ts1
      (map (\<lambda>(m, op). (p, m, op)) ms)"
    by (simp add: list_all2_map2 case_prod_unfold)
  show ?case
    using a ms mid tools l1' l2
    by (intro exI [of _ "ts1 @ ts2"]) (simp add: entries_of_def list_all2_appendI)
qed

lemma parse_tools_char:
  "parse_tools toUpperCase spec = Inr tools \<Longrightarrow>
   list_all2 (\<lambda>t (p, m, op). operation_tool toUpperCase p m op = Inr t) tools (operations spec)"
  unfolding parse_tools_def operations_def
  by (auto split: sum.splits option.splits if_splits simp: entries_of_def dest: forEach_paths_char)

text \<open>What \<open>operation_tool\<close> returns, field by field.\<close>

lemma replace_non_alnum_map:
  "replace_non_alnum s = map (\<lambda>c. if isAlnum c then c else CHR ''_'') s"
  by (induction s) simp_all

lemma operation_tool_fields:
  assumes "operation_tool toUpperCase p m op = Inr t"
  shows "tool_id t = m @ ''_'' @ p" and "tool_path t = p" and "tool_method t = toUpperCase m"
    and "selected t"
    and "tool_name t = or_else (case get_prop op ''operationId'' of Inr v \<Rightarrow> v | Inl e \<Rightarrow> None)
           (JStr (m @ ''_'' @ replace_non_alnum p))"
    and "tool_description t =
           or_else (case get_prop op ''description'' of Inr v \<Rightarrow> v | Inl e \<Rightarrow> None)
             (or_else (case get_prop op ''summary'' of Inr v \<Rightarrow> v | Inl e \<Rightarrow> None)
                (JStr (toUpperCase m @ '' '' @ p)))"
  using assms by (auto simp: operation_tool_def Let_def split: sum.splits)

lemma operations_keys_distinct:
  assumes "wf_json spec"
  shows "distinct (map (\<lambda>(p, m, op). (p, m)) (operations spec))"
proof -
  have inner: "distinct (map (\<lambda>(p, m, op). (p, m)) (map (\<lambda>(m, op). (p, m, op)) (entries_of v)))"
    if "wf_json v" for p :: string and v
  proof -
    have "map (\<lambda>(p, m, op). (p, m)) (map (\<lambda>(m, op). (p, m, op)) (entries_of v))
          = map (Pair p) (map fst (entries_of v))"
      by (simp add: case_prod_unfold comp_def)
    with entries_of_distinct [OF that] show ?thesis
      by (simp add: distinct_map inj_on_def)
  qed
  have outer: "distinct (map (\<lambda>(p, m, op). (p, m))
      (concat (map (\<lambda>(pth, methods). map (\<lambda>(mth, operation). (pth, mth, operation)) (entries_of methods)) ps)))"
    if "distinct (map fst ps)" and "\<forall>(k, w) \<in> set ps. wf_json w" for ps :: "(string \<times> json) list"
    using that
  proof (induction ps)
    case Nil
    then show ?case by simp
  next
    case (Cons a ps)
    obtain p v where a: "a = (p, v)" by (cases a)
    from Cons.prems a have wfv: "wf_json v" and pfresh: "p \<notin> fst ` set ps" by auto
    from Cons show ?case
      using a inner [OF wfv, of p] pfresh
      by (auto simp: case_prod_unfold image_iff)
  qed
  show ?thesis
  proof (cases "get_prop spec ''paths''")
    case (Inl e)
    then show ?thesis by (simp add: operations_def)
  next
    case (Inr r)
    show ?thesis
    proof (cases r)
      case None
      with Inr show ?thesis by (simp add: operations_def)
    next
      case (Some paths)
      with Inr obtain kvs where spec: "spec = JObj kvs" and "map_of kvs ''paths'' = Some paths"
        by (cases spec) auto
      then have "(''paths'', paths) \<in> set kvs" by (simp add: map_of_SomeD)
      with assms spec have wfp: "wf_json paths" by (auto simp: list_all_iff)
      have "\<forall>(k, w) \<in> set (entries_of paths). wf_json w"
        using entries_of_wf [OF wfp] by auto
      with outer [OF entries_of_distinct [OF wfp]] Inr Some show ?thesis
        by (simp add: operations_def)
    qed
  qed
qed

subsection \<open>Identifiers and names of the parsed tools\<close>

lemma split_at_underscore:
  assumes "CHR ''_'' \<notin> set m" and "CHR ''_'' \<notin> set m'"
    and "m @ ''_'' @ p = m' @ ''_'' @ p'"
  shows "m = m' \<and> p = p'"
proof -
  have "takeWhile (\<lambda>c. c \<noteq> CHR ''_'') (m @ ''_'' @ p) = m"
    using assms(1) by (subst takeWhile_append2) auto
  moreover have "takeWhile (\<lambda>c. c \<noteq> CHR ''_'') (m' @ ''_'' @ p') = m'"
    using assms(2) by (subst takeWhile_append2) auto
  ultimately have "m = m'" using assms(3) by simp
  with assms(3) show ?thesis by simp
qed

lemma distinct_map_inj: "distinct ys \<Longrightarrow> inj_on g (set ys) \<Longrightarrow> distinct (map g ys)"
  by (simp add: distinct_map)

lemma list_all2_map_eq:
  "list_all2 (\<lambda>x y. f x = g y) xs ys \<Longrightarrow> map f xs = map g ys"
  by (induction rule: list_all2_induct) simp_all

lemma tool_ids_of_operations:
  assumes "parse_tools toUpperCase spec = Inr tools"
  shows "map tool_id tools = map (\<lambda>(p, m, op). m @ ''_'' @ p) (operations spec)"
proof -
  have "list_all2 (\<lambda>t x. tool_id t = (\<lambda>(p, m, op). m @ ''_'' @ p) x) tools (operations spec)"
    using parse_tools_char [OF assms]
    by (rule list_all2_mono) (auto simp: operation_tool_fields)
  then show ?thesis by (rule list_all2_map_eq)
qed


lemma distinct_ids:
  assumes "wf_json spec" and "parse_tools toUpperCase spec = Inr tools"
    and "\<forall>(pth, mth, operation) \<in> set (operations spec). CHR ''_'' \<notin> set mth"
  shows "distinct (map tool_id tools)"
proof -
  have eq: "map tool_id tools = map (\<lambda>(p, m). m @ ''_'' @ p) (map (\<lambda>(p, m, op). (p, m)) (operations spec))"
    by (simp add: tool_ids_of_operations [OF assms(2)] case_prod_unfold comp_def)
  have "inj_on (\<lambda>(p, m). m @ ''_'' @ p) (set (map (\<lambda>(p, m, op). (p, m)) (operations spec)))"
  proof (rule inj_onI)
    fix x y
    assume x: "x \<in> set (map (\<lambda>(p, m, op). (p, m)) (operations spec))"
      and y: "y \<in> set (map (\<lambda>(p, m, op). (p, m)) (operations spec))"
      and e: "(\<lambda>(p, m). m @ ''_'' @ p) x = (\<lambda>(p, m). m @ ''_'' @ p) y"
    obtain p m where xe: "x = (p, m)" by (cases x)
    obtain p' m' where ye: "y = (p', m')" by (cases y)
    from x xe assms(3) have "CHR ''_'' \<notin> set m" by force
    moreover from y ye assms(3) have "CHR ''_'' \<notin> set m'" by force
    moreover from e xe ye have "m @ ''_'' @ p = m' @ ''_'' @ p'" by simp
    ultimately have "m = m' \<and> p = p'" by (rule split_at_underscore)
    with xe ye show "x = y" by simp
  qed
  with operations_keys_distinct [OF assms(1)] show ?thesis
    unfolding eq by (rule distinct_map_inj)
qed

section \<open>What \<open>parseApiSpec\<close> makes of a document\<close>

lemma or_else_given:
  "or_else (case get_prop v k of Inr w \<Rightarrow> w | Inl e \<Rightarrow> None) d
     = (case given v k of Some w \<Rightarrow> w | None \<Rightarrow> d)"
  by (auto simp: given_def split: sum.splits option.splits)

text \<open>
  C1 (as amended). When parsing succeeds there is one tool per operation of the
  document, in order, and its name is the value of the operation's \<open>operationId\<close> when
  that value is truthy (for a string: not empty); otherwise, when \<open>operationId\<close> is
  missing or falsy, the name is the method key, an underscore, and the path with every
  character outside \<open>[a-zA-Z0-9]\<close> replaced by an underscore.
\<close>

theorem tool_name_derivation:
  assumes "parse_tools toUpperCase spec = Inr tools"
  shows "list_all2
           (\<lambda>tool (pth, mth, operation).
              tool_name tool =
                (case given operation ''operationId'' of
                   Some v \<Rightarrow> v
                 | None \<Rightarrow> JStr (mth @ ''_'' @ map (\<lambda>c. if isAlnum c then c else CHR ''_'') pth)))
           tools (operations spec)"
  using parse_tools_char [OF assms]
  by (rule list_all2_mono)
     (auto simp: operation_tool_fields or_else_given replace_non_alnum_map split: option.splits)

theorem tool_name_derivation_witness:
  "parse_tools ascii_toUpperCase users_api = Inr users_tools \<and>
   list_all2
     (\<lambda>tool (pth, mth, operation).
        tool_name tool =
          (case given operation ''operationId'' of
             Some v \<Rightarrow> v
           | None \<Rightarrow> JStr (mth @ ''_'' @ map (\<lambda>c. if isAlnum c then c else CHR ''_'') pth)))
     users_tools (operations users_api) \<and>
   map tool_name users_tools = [JStr ''getUser'', JStr ''delete__users__id_'', JStr ''post__users'']"
proof -
  have parsed: "parse_tools ascii_toUpperCase users_api = Inr users_tools" by code_simp
  have names: "map tool_name users_tools
      = [JStr ''getUser'', JStr ''delete__users__id_'', JStr ''post__users'']"
    by (simp add: users_tools_def)
  from parsed tool_name_derivation [OF parsed] names show ?thesis by simp
qed

text \<open>
  C1 as stated fails: the operation \<open>GET /users\<close> declares the \<open>operationId\<close>
  \<open>""\<close>, and the tool is named \<open>get__users\<close>.
\<close>

theorem tool_name_empty_operationId:
  "operations empty_operationId_api = [(''/users'', ''get'', JObj [(''operationId'', JStr '''')])] \<and>
   get_prop (JObj [(''operationId'', JStr '''')]) ''operationId'' = Inr (Some (JStr '''')) \<and>
   parse_tools ascii_toUpperCase empty_operationId_api =
     Inr [\<lparr> tool_id = ''get_/users'', tool_name = JStr ''get__users'',
             tool_description = JStr ''GET /users'', tool_method = ''GET'',
             tool_path = ''/users'', selected = True \<rparr>] \<and>
   JStr ''get__users'' \<noteq> JStr ''''"
  by code_simp

text \<open>
  C7 (as amended). The description shown for a tool is the value of the operation's
  \<open>description\<close> when that value is truthy (for a string: not empty), else the value of
  its \<open>summary\<close> when that is truthy, else the upper-cased method key (what the
  built-in \<open>toUpperCase\<close> returns for it, whatever its characters), a space, and the
  path.
\<close>

theorem tool_description_derivation:
  assumes "parse_tools toUpperCase spec = Inr tools"
  shows "list_all2
           (\<lambda>tool (pth, mth, operation).
              tool_description tool =
                (case given operation ''description'' of
                   Some d \<Rightarrow> d
                 | None \<Rightarrow>
                     (case given operation ''summary'' of
                        Some s \<Rightarrow> s
                      | None \<Rightarrow> JStr (toUpperCase mth @ '' '' @ pth))))
           tools (operations spec)"
  using parse_tools_char [OF assms]
  by (rule list_all2_mono)
     (auto simp: operation_tool_fields or_else_given split: option.splits)

theorem tool_description_derivation_witness:
  "parse_tools ascii_toUpperCase users_api = Inr users_tools \<and>
   list_all2
     (\<lambda>tool (pth, mth, operation).
        tool_description tool =
          (case given operation ''description'' of
             Some d \<Rightarrow> d
           | None \<Rightarrow>
               (case given operation ''summary'' of
                  Some s \<Rightarrow> s
                | None \<Rightarrow> JStr (ascii_toUpperCase mth @ '' '' @ pth))))
     users_tools (operations users_api) \<and>
   map tool_description users_tools
     = [JStr ''Fetch one user'', JStr ''Remove a user'', JStr ''POST /users'']"
proof -
  have parsed: "parse_tools ascii_toUpperCase users_api = Inr users_tools" by code_simp
  have shown: "map tool_description users_tools
      = [JStr ''Fetch one user'', JStr ''Remove a user'', JStr ''POST /users'']"
    by (simp add: users_tools_def)
  from parsed tool_description_derivation [OF parsed] shown show ?thesis by simp
qed

text \<open>
  C7 as stated fails: the operation \<open>GET /users\<close> has the description \<open>""\<close> and
  the summary \<open>List users\<close>, and the tool shows the summary.
\<close>

theorem tool_description_empty_description:
  "operations empty_description_api =
     [(''/users'', ''get'', JObj [(''description'', JStr ''''), (''summary'', JStr ''List users'')])] \<and>
   get_prop (JObj [(''description'', JStr ''''), (''summary'', JStr ''List users'')]) ''description''
     = Inr (Some (JStr '''')) \<and>
   parse_tools ascii_toUpperCase empty_description_api =
     Inr [\<lparr> tool_id = ''get_/users'', tool_name = JStr ''get__users'',
             tool_description = JStr ''List users'', tool_method = ''GET'',
             tool_path = ''/users'', selected = True \<rparr>] \<and>
   JStr ''List users'' \<noteq> JStr ''''"
  by code_simp

text \<open>
  C2 (as amended). The tools come in the order in which the document's entries are
  enumerated: the paths in the order of the \<open>paths\<close> object, and under each path its
  methods in their order; nothing is sorted. Parsing is a function of the text alone:
  two components holding the same text get the same list of tools, names and order
  included, whatever they held before.
\<close>

theorem tools_in_document_order:
  "(parse_tools toUpperCase spec = Inr tools \<longrightarrow>
      list_all2
        (\<lambda>tool (pth, mth, operation).
           tool_path tool = pth \<and> tool_method tool = toUpperCase mth \<and>
           tool_id tool = mth @ ''_'' @ pth)
        tools (operations spec)) \<and>
   (apiSpec g1 = apiSpec g2 \<longrightarrow>
      snd (parseApiSpec toUpperCase JSON_parse g1) = [] \<longrightarrow>
      snd (parseApiSpec toUpperCase JSON_parse g2) = [] \<and>
      parsedTools (fst (parseApiSpec toUpperCase JSON_parse g2))
        = parsedTools (fst (parseApiSpec toUpperCase JSON_parse g1)))"
proof (intro conjI impI)
  assume "parse_tools toUpperCase spec = Inr tools"
  from parse_tools_char [OF this]
  show "list_all2
        (\<lambda>tool (pth, mth, operation).
           tool_path tool = pth \<and> tool_method tool = toUpperCase mth \<and>
           tool_id tool = mth @ ''_'' @ pth)
        tools (operations spec)"
    by (rule list_all2_mono) (auto simp: operation_tool_fields)
next
  assume same: "apiSpec g1 = apiSpec g2" and ok: "snd (parseApiSpec toUpperCase JSON_parse g1) = []"
  from ok obtain spec tools where nonblank: "trim (apiSpec g1) \<noteq> []"
    and "JSON_parse (apiSpec g1) = Some spec" and "parse_tools toUpperCase spec = Inr tools"
    by (auto simp: parseApiSpec_def split: if_splits option.splits sum.splits)
  with same show "snd (parseApiSpec toUpperCase JSON_parse g2) = []"
    and "parsedTools (fst (parseApiSpec toUpperCase JSON_parse g2))
        = parsedTools (fst (parseApiSpec toUpperCase JSON_parse g1))"
    by (simp_all add: parseApiSpec_def)
qed

theorem tools_in_document_order_witness:
  "parse_tools ascii_toUpperCase users_api = Inr users_tools \<and>
   list_all2
     (\<lambda>tool (pth, mth, operation).
        tool_path tool = pth \<and> tool_method tool = ascii_toUpperCase mth \<and>
        tool_id tool = mth @ ''_'' @ pth)
     users_tools (operations users_api) \<and>
   apiSpec fresh_generator = apiSpec used_generator \<and>
   snd (parseApiSpec ascii_toUpperCase users_JSON_parse fresh_generator) = [] \<and>
   snd (parseApiSpec ascii_toUpperCase users_JSON_parse used_generator) = [] \<and>
   parsedTools (fst (parseApiSpec ascii_toUpperCase users_JSON_parse used_generator))
     = parsedTools (fst (parseApiSpec ascii_toUpperCase users_JSON_parse fresh_generator))"
proof -
  have parsed: "parse_tools ascii_toUpperCase users_api = Inr users_tools" by code_simp
  have same: "apiSpec fresh_generator = apiSpec used_generator"
    by (simp add: fresh_generator_def used_generator_def)
  have ok: "snd (parseApiSpec ascii_toUpperCase users_JSON_parse fresh_generator) = []" by code_simp
  from tools_in_document_order [of ascii_toUpperCase users_api users_tools fresh_generator
      used_generator users_JSON_parse]
    parsed same ok
  show ?thesis by blast
qed

text \<open>
  C2 as stated fails: the document lists \<open>/b\<close> before \<open>/a\<close>, and so does the list of
  tools, which is therefore not ascending by (path, method).
\<close>

theorem tools_not_sorted:
  "parse_tools ascii_toUpperCase unsorted_api = Inr unsorted_tools \<and>
   map tool_path unsorted_tools = [''/b'', ''/a''] \<and>
   \<not> sorted (zip (map tool_path unsorted_tools) (map tool_method unsorted_tools))"
proof -
  have "parse_tools ascii_toUpperCase unsorted_api = Inr unsorted_tools" by code_simp
  moreover have "map tool_path unsorted_tools = [''/b'', ''/a'']"
    by (simp add: unsorted_tools_def)
  moreover have "\<not> sorted (zip (map tool_path unsorted_tools) (map tool_method unsorted_tools))"
    by (simp add: unsorted_tools_def)
  ultimately show ?thesis by simp
qed




section \<open>What \<open>handleGenerate\<close> sends\<close>

lemma config_setGenerating: "config (state (setGenerating b st)) = config (state st)"
  by (simp add: setGenerating_def set_state_def)

lemma handleGenerate_request:
  assumes "CallGenerateMCP request \<in> set (snd (handleGenerate generateMCP g st))"
  shows "request = build_request (config (state st)) g"
    and "trim (apiSpec g) \<noteq> []" and "trim (systemPrompt g) \<noteq> []"
    and "showToolSelection g \<longrightarrow> filter selected (parsedTools g) \<noteq> []"
  using assms
  by (auto simp: handleGenerate_def Let_def config_setGenerating split: if_splits sum.splits)

text \<open>
  C4. When tool selection is shown and no tool is selected, \<open>handleGenerate\<close> returns
  after an alert: the store is as it was, and \<open>generateMCP\<close> is not called.
\<close>

theorem generate_refused_without_selection:
  assumes "showToolSelection g" and "filter selected (parsedTools g) = []"
  shows "fst (handleGenerate generateMCP g st) = st \<and>
         snd (handleGenerate generateMCP g st) =
           [Alert (if trim (apiSpec g) = [] \<or> trim (systemPrompt g) = []
                   then ''Please fill in both API specification and system prompt''
                   else ''Please select at least one tool to generate'')] \<and>
         (\<forall>request. CallGenerateMCP request \<notin> set (snd (handleGenerate generateMCP g st)))"
  using assms by (simp add: handleGenerate_def)

theorem generate_refused_without_selection_witness:
  "showToolSelection deselected_generator \<and>
   filter selected (parsedTools deselected_generator) = [] \<and>
   handleGenerate archive_backend deselected_generator (new_session None)
     = (new_session None, [Alert ''Please select at least one tool to generate''])"
proof -
  have shown: "showToolSelection deselected_generator" by code_simp
  have none: "filter selected (parsedTools deselected_generator) = []" by code_simp
  have filled: "\<not> (trim (apiSpec deselected_generator) = [] \<or> trim (systemPrompt deselected_generator) = [])"
    by code_simp
  from generate_refused_without_selection [OF shown none, of archive_backend "new_session None"] filled
  have "handleGenerate archive_backend deselected_generator (new_session None)
     = (new_session None, [Alert ''Please select at least one tool to generate''])"
    by (simp add: prod_eq_iff)
  with shown none show ?thesis by simp
qed

text \<open>
  C6. The \<open>base_url\<close> of the request \<open>handleGenerate\<close> sends is the trimmed text of the
  Base URL field (the text without the white space at its two ends, the no-break space
  included) when that is not empty; else the \<open>baseUrl\<close> of the stored configuration
  when that is not empty; else it is absent.
\<close>

theorem base_url_precedence:
  assumes "CallGenerateMCP request \<in> set (snd (handleGenerate generateMCP g st))"
  shows "(trim (baseUrlField g) \<noteq> [] \<longrightarrow> base_url request = Some (trim (baseUrlField g))) \<and>
         (trim (baseUrlField g) = [] \<and> baseUrl (config (state st)) \<noteq> [] \<longrightarrow>
            base_url request = Some (baseUrl (config (state st)))) \<and>
         (trim (baseUrlField g) = [] \<and> baseUrl (config (state st)) = [] \<longrightarrow>
            base_url request = None)"
  using handleGenerate_request(1) [OF assms] by (simp add: build_request_def)

theorem base_url_precedence_witness:
  "CallGenerateMCP (build_request (config (state store_with_default))
       (ready_generator \<lparr> baseUrlField := '' https://staging.example.com  '' \<rparr>))
     \<in> set (snd (handleGenerate archive_backend
                 (ready_generator \<lparr> baseUrlField := '' https://staging.example.com  '' \<rparr>)
                 store_with_default)) \<and>
   base_url (build_request (config (state store_with_default))
       (ready_generator \<lparr> baseUrlField := '' https://staging.example.com  '' \<rparr>))
     = Some ''https://staging.example.com'' \<and>
   CallGenerateMCP (build_request (config (state store_with_default)) ready_generator)
     \<in> set (snd (handleGenerate archive_backend ready_generator store_with_default)) \<and>
   base_url (build_request (config (state store_with_default)) ready_generator)
     = Some ''https://api.example.com'' \<and>
   CallGenerateMCP (build_request (config (state (new_session None))) ready_generator)
     \<in> set (snd (handleGenerate archive_backend ready_generator (new_session None))) \<and>
   base_url (build_request (config (state (new_session None))) ready_generator) = None \<and>
   CallGenerateMCP (build_request (config (state store_with_default))
       (ready_generator \<lparr> baseUrlField := [CHR 0xA0, CHR 0x20] \<rparr>))
     \<in> set (snd (handleGenerate archive_backend
                 (ready_generator \<lparr> baseUrlField := [CHR 0xA0, CHR 0x20] \<rparr>)
                 store_with_default)) \<and>
   base_url (build_request (config (state store_with_default))
       (ready_generator \<lparr> baseUrlField := [CHR 0xA0, CHR 0x20] \<rparr>))
     = Some ''https://api.example.com''"
proof -
  let ?g1 = "ready_generator \<lparr> baseUrlField := '' https://staging.example.com  '' \<rparr>"
  let ?g4 = "ready_generator \<lparr> baseUrlField := [CHR 0xA0, CHR 0x20] \<rparr>"
  let ?r1 = "build_request (config (state store_with_default)) ?g1"
  let ?r2 = "build_request (config (state store_with_default)) ready_generator"
  let ?r3 = "build_request (config (state (new_session None))) ready_generator"
  let ?r4 = "build_request (config (state store_with_default)) ?g4"
  have c1: "CallGenerateMCP ?r1 \<in> set (snd (handleGenerate archive_backend ?g1 store_with_default))"
    by code_simp
  have c2: "CallGenerateMCP ?r2 \<in> set (snd (handleGenerate archive_backend ready_generator store_with_default))"
    by code_simp
  have c3: "CallGenerateMCP ?r3 \<in> set (snd (handleGenerate archive_backend ready_generator (new_session None)))"
    by code_simp
  have c4: "CallGenerateMCP ?r4 \<in> set (snd (handleGenerate archive_backend ?g4 store_with_default))"
    by code_simp
  have t1: "trim (baseUrlField ?g1) = ''https://staging.example.com''" by code_simp
  have t2: "trim (baseUrlField ready_generator) = []" by code_simp
  have t4: "trim (baseUrlField ?g4) = []" by code_simp
  have d2: "baseUrl (config (state store_with_default)) = ''https://api.example.com''" by code_simp
  have d3: "baseUrl (config (state (new_session None))) = []" by code_simp
  from base_url_precedence [OF c1] t1 have "base_url ?r1 = Some ''https://staging.example.com''"
    by simp
  moreover from base_url_precedence [OF c2] t2 d2 have "base_url ?r2 = Some ''https://api.example.com''"
    by simp
  moreover from base_url_precedence [OF c3] t2 d3 have "base_url ?r3 = None"
    by simp
  moreover from base_url_precedence [OF c4] t4 d2 have "base_url ?r4 = Some ''https://api.example.com''"
    by simp
  ultimately show ?thesis using c1 c2 c3 c4 by simp
qed

section \<open>The stored configuration always has a transport\<close>

lemma has_transport_initial: "has_transport initialApp"
  by (simp add: has_transport_def initialApp_def new_session_def rehydrate_def initialState_def
      defaultConfig_def)

lemma spread_all_fields: "spread_config c (all_fields t) = t"
  by (simp add: spread_config_def all_fields_def)

lemma handleSave_store:
  "fst (handleSave t st) = \<lparr> state = (state st) \<lparr> config := t \<rparr>,
                             storage = Some \<lparr> persisted_config = t \<rparr> \<rparr>"
  by (simp add: handleSave_def updateConfig_def set_state_def spread_all_fields partialize_def)

lemma handleGenerate_store:
  "config (state (fst (handleGenerate generateMCP g st))) = config (state st) \<and>
   (storage (fst (handleGenerate generateMCP g st)) = storage st \<or>
    storage (fst (handleGenerate generateMCP g st)) = Some \<lparr> persisted_config = config (state st) \<rparr>)"
  by (simp add: handleGenerate_def Let_def setGenerating_def setGenerationResult_def set_state_def
      partialize_def split: sum.splits)

lemma step_has_transport:
  assumes "has_transport a"
  shows "has_transport (fst (step env e a))"
proof (cases e)
  case ClickSave
  with assms show ?thesis
    by (auto simp: has_transport_def saveDisabled_def with_store_def handleSave_store split_beta
        split: option.splits)
next
  case ClickGenerate
  have "has_transport (with_store (fst (handleGenerate (env_generateMCP env) (generator a) (app_store a))) a)"
    using assms handleGenerate_store [of "env_generateMCP env" "generator a" "app_store a"]
    by (auto simp: has_transport_def with_store_def split: option.splits)
  with ClickGenerate assms show ?thesis
    by (simp add: split_beta)
next
  case Reload
  with assms show ?thesis
    by (auto simp: has_transport_def new_session_def rehydrate_def Let_def initialState_def
        defaultConfig_def split: option.splits)
qed (use assms in \<open>auto simp: has_transport_def split_beta\<close>)

lemma step_requests:
  assumes "has_transport a" and "CallGenerateMCP request \<in> set (snd (step env e a))"
  shows "protocol_types (req_config request) \<noteq> []"
proof (cases e)
  case ClickGenerate
  with assms(2) have "CallGenerateMCP request
      \<in> set (snd (handleGenerate (env_generateMCP env) (generator a) (app_store a)))"
    by (auto simp: split_beta split: if_splits)
  from handleGenerate_request(1) [OF this] assms(1) show ?thesis
    by (simp add: build_request_def has_transport_def)
next
  case ClickSave
  with assms(2) show ?thesis
    by (auto simp: split_beta handleSave_def split: if_splits)
next
  case ClickLoadApis
  with assms(2) show ?thesis
    by (auto simp: split_beta parseApiSpec_def split: if_splits option.splits sum.splits)
qed (use assms(2) in \<open>auto simp: Let_def split: if_splits\<close>)

lemma run_has_transport:
  assumes "has_transport a"
  shows "has_transport (fst (run env es a)) \<and>
         (\<forall>request. CallGenerateMCP request \<in> set (snd (run env es a)) \<longrightarrow>
            protocol_types (req_config request) \<noteq> [])"
  using assms
proof (induction es arbitrary: a)
  case Nil
  then show ?case by simp
next
  case (Cons e es)
  from Cons.prems have "has_transport (fst (step env e a))" by (rule step_has_transport)
  from Cons.IH [OF this] step_requests [OF Cons.prems, of _ env e] show ?case
    by (auto simp: split_beta)
qed

text \<open>
  C5. The default configuration selects \<open>stdio\<close>. A copy with no protocol cannot be
  saved: the button is disabled, and the click changes nothing. So whatever the user
  does, over any number of sessions, the configuration in the store and the one in the
  browser's storage name at least one protocol, and so does every request sent to
  \<open>generateMCP\<close>.
\<close>

theorem transport_never_empty:
  "protocolTypes defaultConfig = [Stdio] \<and>
   (protocolTypes (tempConfig a) = [] \<longrightarrow>
      saveDisabled (tempConfig a) (config (state (app_store a))) \<and> step env ClickSave a = (a, [])) \<and>
   protocolTypes (config (state (app_store (fst (run env events initialApp))))) \<noteq> [] \<and>
   (case storage (app_store (fst (run env events initialApp))) of
      None \<Rightarrow> True
    | Some p \<Rightarrow> protocolTypes (persisted_config p) \<noteq> []) \<and>
   (\<forall>request. CallGenerateMCP request \<in> set (snd (run env events initialApp)) \<longrightarrow>
      protocol_types (req_config request) \<noteq> [])"
proof -
  have "protocolTypes defaultConfig = [Stdio]" by (simp add: defaultConfig_def)
  moreover have "protocolTypes (tempConfig a) = [] \<longrightarrow>
      saveDisabled (tempConfig a) (config (state (app_store a))) \<and> step env ClickSave a = (a, [])"
    by (simp add: saveDisabled_def)
  moreover note run_has_transport [OF has_transport_initial, of env events]
  ultimately show ?thesis by (simp add: has_transport_def)
qed

theorem transport_never_empty_witness:
  "protocolTypes (tempConfig unchecked_app) = [] \<and>
   step example_env ClickSave unchecked_app = (unchecked_app, []) \<and>
   CallGenerateMCP example_request \<in> set (snd (run example_env example_session initialApp)) \<and>
   protocol_types (req_config example_request) \<noteq> [] \<and>
   protocolTypes (config (state (app_store (fst (run example_env example_session initialApp))))) \<noteq> [] \<and>
   storage (app_store (fst (run example_env example_session initialApp)))
     = Some \<lparr> persisted_config = defaultConfig \<lparr> protocolTypes := [Http] \<rparr> \<rparr>"
proof -
  have empty: "protocolTypes (tempConfig unchecked_app) = []" by code_simp
  have sent: "CallGenerateMCP example_request \<in> set (snd (run example_env example_session initialApp))"
    by code_simp
  have stored: "storage (app_store (fst (run example_env example_session initialApp)))
     = Some \<lparr> persisted_config = defaultConfig \<lparr> protocolTypes := [Http] \<rparr> \<rparr>"
    by code_simp
  from transport_never_empty [of unchecked_app example_env example_session] empty sent stored
  show ?thesis by simp
qed

section \<open>What the store keeps\<close>

text \<open>
  C9. What is written to the browser's storage is made from the \<open>config\<close> field alone:
  two states with the same configuration are stored as the same item, and a new
  session starts from the initial state (\<open>isGenerating\<close>, \<open>isTesting\<close>,
  \<open>generationResult\<close> and \<open>testResult\<close> as at the start) with the configuration last
  set. \<open>updateConfig\<close> gives each field of the configuration the value the update has
  for it and leaves a field the update does not have, and every other field of the
  state, as it was.
\<close>

theorem only_config_persisted:
  "(config s1 = config s2 \<longrightarrow> partialize s1 = partialize s2) \<and>
   state (new_session (storage (set_state f st))) = initialState \<lparr> config := config (f (state st)) \<rparr> \<and>
   (let c = config (state st); c' = config (state (updateConfig u st)) in
      openaiApiKey c' = (case upd_openaiApiKey u of None \<Rightarrow> openaiApiKey c | Some v \<Rightarrow> v) \<and>
      mcpName c' = (case upd_mcpName u of None \<Rightarrow> mcpName c | Some v \<Rightarrow> v) \<and>
      protocolTypes c' = (case upd_protocolTypes u of None \<Rightarrow> protocolTypes c | Some v \<Rightarrow> v) \<and>
      description c' = (case upd_description u of None \<Rightarrow> description c | Some v \<Rightarrow> v) \<and>
      version c' = (case upd_version u of None \<Rightarrow> version c | Some v \<Rightarrow> v) \<and>
      author c' = (case upd_author u of None \<Rightarrow> author c | Some v \<Rightarrow> v) \<and>
      baseUrl c' = (case upd_baseUrl u of None \<Rightarrow> baseUrl c | Some v \<Rightarrow> v)) \<and>
   state (updateConfig u st) = (state st) \<lparr> config := config (state (updateConfig u st)) \<rparr>"
  by (simp add: partialize_def new_session_def set_state_def rehydrate_def updateConfig_def
      spread_config_def Let_def)

theorem only_config_persisted_witness:
  "config (state busy_store) = config initialState \<and>
   partialize (state busy_store) = partialize initialState \<and>
   isGenerating (state busy_store) \<and> generationResult (state busy_store) = Some ''504b0506'' \<and>
   state (new_session (storage (updateConfig rename_only busy_store)))
     = initialState \<lparr> config := defaultConfig \<lparr> mcpName := ''Users MCP'' \<rparr> \<rparr> \<and>
   config (state (updateConfig rename_only busy_store)) = defaultConfig \<lparr> mcpName := ''Users MCP'' \<rparr> \<and>
   state (updateConfig rename_only busy_store)
     = (state busy_store) \<lparr> config := defaultConfig \<lparr> mcpName := ''Users MCP'' \<rparr> \<rparr>"
proof -
  have same: "config (state busy_store) = config initialState" by code_simp
  have busy: "isGenerating (state busy_store) \<and> generationResult (state busy_store) = Some ''504b0506''"
    by code_simp
  have upd_eq: "updateConfig rename_only busy_store
      = set_state (\<lambda>s. s \<lparr> config := spread_config (config s) rename_only \<rparr>) busy_store"
    by (simp add: updateConfig_def)
  have cfg: "config (state busy_store) = defaultConfig" by code_simp
  have fields: "upd_openaiApiKey rename_only = None" "upd_mcpName rename_only = Some ''Users MCP''"
    "upd_protocolTypes rename_only = None" "upd_description rename_only = None"
    "upd_version rename_only = None" "upd_author rename_only = None" "upd_baseUrl rename_only = None"
    by (simp_all add: rename_only_def)
  note inst = only_config_persisted [of "state busy_store" initialState
      "\<lambda>s. s \<lparr> config := spread_config (config s) rename_only \<rparr>" busy_store rename_only]
  from inst same have p: "partialize (state busy_store) = partialize initialState" by blast
  from inst fields cfg have c: "config (state (updateConfig rename_only busy_store))
      = defaultConfig \<lparr> mcpName := ''Users MCP'' \<rparr>"
    by (intro MCPConfig.equality) (simp_all add: Let_def)
  from inst upd_eq c have n: "state (new_session (storage (updateConfig rename_only busy_store)))
     = initialState \<lparr> config := defaultConfig \<lparr> mcpName := ''Users MCP'' \<rparr> \<rparr>"
    by (simp add: set_state_def)
  from inst c have s: "state (updateConfig rename_only busy_store)
     = (state busy_store) \<lparr> config := defaultConfig \<lparr> mcpName := ''Users MCP'' \<rparr> \<rparr>"
    by simp
  from same p busy n c s show ?thesis by simp
qed

section \<open>The tester's status indicator\<close>

lemma Object_entries_total: "v \<noteq> JNull \<Longrightarrow> Object_entries v = Inr (entries_of v)"
  by (cases v) (simp_all add: entries_of_def)

lemma given_url_cases:
  "serverConfig \<noteq> JNull \<Longrightarrow>
   (case get_prop serverConfig ''url'' of
      Inl e \<Rightarrow> A
    | Inr None \<Rightarrow> B
    | Inr (Some url) \<Rightarrow> if \<not> truthy url then B else C url)
   = (case given serverConfig ''url'' of None \<Rightarrow> B | Some url \<Rightarrow> C url)"
  by (cases serverConfig) (auto simp: given_def split: option.splits)

lemma checkMcpStatus_entries:
  assumes "trim configText \<noteq> []" and "JSON_parse configText = Some cfg"
    and "get_prop cfg ''mcpServers'' = Inr servers"
    and "Object_entries (or_else servers (JObj [])) = Inr entries"
  shows "checkMcpStatus JSON_parse fetch configText =
     (case entries of
        [] \<Rightarrow> (Inactive, [])
      | (k, serverConfig) # others \<Rightarrow>
          if serverConfig = JNull then (Unknown, [])
          else (case given serverConfig ''url'' of
                  None \<Rightarrow> (Inactive, [])
                | Some url \<Rightarrow>
                    (if fetch \<lparr> fetch_url = url, fetch_method = ''GET'', fetch_timeout_ms = 5000 \<rparr>
                          = Response True
                     then Active else Inactive,
                     [\<lparr> fetch_url = url, fetch_method = ''GET'', fetch_timeout_ms = 5000 \<rparr>])))"
proof (cases entries)
  case Nil
  with assms show ?thesis by (simp add: checkMcpStatus_def)
next
  case (Cons e others)
  obtain k serverConfig where e: "e = (k, serverConfig)" by (cases e)
  show ?thesis
  proof (cases "serverConfig = JNull")
    case True
    with assms Cons e show ?thesis by (simp add: checkMcpStatus_def)
  next
    case False
    with assms Cons e show ?thesis
      by (simp add: checkMcpStatus_def given_url_cases Let_def
          split: option.splits fetch_outcome.splits)
  qed
qed

lemma checkMcpStatus_active:
  "fst (checkMcpStatus JSON_parse fetch configText) = Active \<longleftrightarrow>
   (\<exists>call. snd (checkMcpStatus JSON_parse fetch configText) = [call] \<and> fetch call = Response True)"
  by (auto simp: checkMcpStatus_def Let_def
      split: option.splits sum.splits list.splits fetch_outcome.splits if_splits)

text \<open>
  C8 (as amended). The indicator is decided by the first entry of \<open>mcpServers\<close> alone,
  and at most that entry's \<open>url\<close> is pinged, once, by a GET with a 5000 ms timeout.
  A blank text, a text \<open>JSON.parse\<close> rejects and the text \<open>null\<close> give \<open>unknown\<close>.
  For any other parsed value, \<open>mcpServers\<close> is read (an empty object when it is not
  given): no entry gives \<open>inactive\<close>; a first entry that is \<open>null\<close> gives \<open>unknown\<close>
  (reading its \<open>url\<close> throws); a first entry that is not \<open>null\<close> and has no truthy
  \<open>url\<close> gives \<open>inactive\<close>, without a ping; otherwise the \<open>url\<close> is pinged, and the
  indicator is \<open>active\<close> when the response is ok and \<open>inactive\<close> when it is not or
  the request is rejected. So \<open>active\<close> is shown exactly when one ping was made and
  its response was ok.
\<close>

theorem status_by_first_server:
  "(trim configText = [] \<or> JSON_parse configText = None \<or> JSON_parse configText = Some JNull \<longrightarrow>
      checkMcpStatus JSON_parse fetch configText = (Unknown, [])) \<and>
   (trim configText \<noteq> [] \<and> JSON_parse configText = Some cfg \<and> cfg \<noteq> JNull \<longrightarrow>
      checkMcpStatus JSON_parse fetch configText =
        (case entries_of (case given cfg ''mcpServers'' of Some servers \<Rightarrow> servers | None \<Rightarrow> JObj []) of
           [] \<Rightarrow> (Inactive, [])
         | (k, serverConfig) # others \<Rightarrow>
             if serverConfig = JNull then (Unknown, [])
             else (case given serverConfig ''url'' of
                     None \<Rightarrow> (Inactive, [])
                   | Some url \<Rightarrow>
                       (if fetch \<lparr> fetch_url = url, fetch_method = ''GET'', fetch_timeout_ms = 5000 \<rparr>
                             = Response True
                        then Active else Inactive,
                        [\<lparr> fetch_url = url, fetch_method = ''GET'', fetch_timeout_ms = 5000 \<rparr>])))) \<and>
   (fst (checkMcpStatus JSON_parse fetch configText) = Active \<longleftrightarrow>
      (\<exists>call. snd (checkMcpStatus JSON_parse fetch configText) = [call] \<and> fetch call = Response True))"
proof (intro conjI impI)
  assume "trim configText = [] \<or> JSON_parse configText = None \<or> JSON_parse configText = Some JNull"
  then show "checkMcpStatus JSON_parse fetch configText = (Unknown, [])"
    by (auto simp: checkMcpStatus_def)
next
  let ?servers = "case given cfg ''mcpServers'' of Some servers \<Rightarrow> servers | None \<Rightarrow> JObj []"
  assume "trim configText \<noteq> [] \<and> JSON_parse configText = Some cfg \<and> cfg \<noteq> JNull"
  then have nonblank: "trim configText \<noteq> []" and parsed: "JSON_parse configText = Some cfg"
    and "cfg \<noteq> JNull"
    by simp_all
  then obtain ms where ms: "get_prop cfg ''mcpServers'' = Inr ms" by (cases cfg) simp_all
  then have servers: "or_else ms (JObj []) = ?servers"
    using or_else_given [of cfg "''mcpServers''" "JObj []"] by simp
  have "?servers \<noteq> JNull" by (auto simp: given_def split: sum.splits option.splits if_splits)
  then have "Object_entries ?servers = Inr (entries_of ?servers)" by (rule Object_entries_total)
  with servers have "Object_entries (or_else ms (JObj [])) = Inr (entries_of ?servers)" by simp
  from checkMcpStatus_entries [where JSON_parse = JSON_parse and fetch = fetch,
      OF nonblank parsed ms this]
  show "checkMcpStatus JSON_parse fetch configText =
        (case entries_of ?servers of
           [] \<Rightarrow> (Inactive, [])
         | (k, serverConfig) # others \<Rightarrow>
             if serverConfig = JNull then (Unknown, [])
             else (case given serverConfig ''url'' of
                     None \<Rightarrow> (Inactive, [])
                   | Some url \<Rightarrow>
                       (if fetch \<lparr> fetch_url = url, fetch_method = ''GET'', fetch_timeout_ms = 5000 \<rparr>
                             = Response True
                        then Active else Inactive,
                        [\<lparr> fetch_url = url, fetch_method = ''GET'', fetch_timeout_ms = 5000 \<rparr>])))" .
next
  show "fst (checkMcpStatus JSON_parse fetch configText) = Active \<longleftrightarrow>
      (\<exists>call. snd (checkMcpStatus JSON_parse fetch configText) = [call] \<and> fetch call = Response True)"
    by (rule checkMcpStatus_active)
qed

theorem status_by_first_server_witness:
  \<open>checkMcpStatus tester_JSON_parse local_up two_servers_text = (Active, [local_call]) \<and>
   checkMcpStatus tester_JSON_parse remote_up two_servers_text = (Inactive, [local_call]) \<and>
   checkMcpStatus tester_JSON_parse local_up no_servers_text = (Inactive, []) \<and>
   checkMcpStatus tester_JSON_parse local_up command_server_text = (Inactive, []) \<and>
   checkMcpStatus tester_JSON_parse local_up ''{"mcpServers":'' = (Unknown, []) \<and>
   checkMcpStatus tester_JSON_parse local_up ''null'' = (Unknown, [])\<close>
proof -
  let ?locals = "[(''local'', JObj [(''url'', JStr ''http://localhost:8000/mcp'')]),
                  (''remote'', JObj [(''url'', JStr ''https://mcp.example.com'')])]"
  have two: "trim two_servers_text \<noteq> [] \<and> tester_JSON_parse two_servers_text = Some two_servers \<and>
      two_servers \<noteq> JNull"
    by code_simp
  have two_entries: "entries_of (case given two_servers ''mcpServers'' of
      Some servers \<Rightarrow> servers | None \<Rightarrow> JObj []) = ?locals"
    by code_simp
  have url: "given (JObj [(''url'', JStr ''http://localhost:8000/mcp'')]) ''url''
      = Some (JStr ''http://localhost:8000/mcp'')"
    by (simp add: given_def)
  have up: "local_up local_call = Response True" and down: "remote_up local_call = Rejected"
    by (simp_all add: local_up_def remote_up_def local_call_def)
  from status_by_first_server [of two_servers_text tester_JSON_parse local_up two_servers]
    two two_entries url up
  have w1: "checkMcpStatus tester_JSON_parse local_up two_servers_text = (Active, [local_call])"
    by (simp add: local_call_def)
  from status_by_first_server [of two_servers_text tester_JSON_parse remote_up two_servers]
    two two_entries url down
  have w2: "checkMcpStatus tester_JSON_parse remote_up two_servers_text = (Inactive, [local_call])"
    by (simp add: local_call_def)
  have none: "trim no_servers_text \<noteq> [] \<and>
      tester_JSON_parse no_servers_text = Some (JObj [(''mcpServers'', JObj [])]) \<and>
      JObj [(''mcpServers'', JObj [])] \<noteq> JNull"
    by code_simp
  have none_entries: "entries_of (case given (JObj [(''mcpServers'', JObj [])]) ''mcpServers'' of
      Some servers \<Rightarrow> servers | None \<Rightarrow> JObj []) = []"
    by code_simp
  from status_by_first_server [of no_servers_text tester_JSON_parse local_up
      "JObj [(''mcpServers'', JObj [])]"] none none_entries
  have w3: "checkMcpStatus tester_JSON_parse local_up no_servers_text = (Inactive, [])"
    by simp
  let ?cmd = "[(''local'', JObj [(''command'', JStr ''python'')])]"
  have cmd: "trim command_server_text \<noteq> [] \<and>
      tester_JSON_parse command_server_text = Some (JObj [(''mcpServers'', JObj ?cmd)]) \<and>
      JObj [(''mcpServers'', JObj ?cmd)] \<noteq> JNull"
    by code_simp
  have cmd_entries: "entries_of (case given (JObj [(''mcpServers'', JObj ?cmd)]) ''mcpServers'' of
      Some servers \<Rightarrow> servers | None \<Rightarrow> JObj []) = ?cmd"
    by code_simp
  have nourl: "given (JObj [(''command'', JStr ''python'')]) ''url'' = None"
    by (simp add: given_def)
  from status_by_first_server [of command_server_text tester_JSON_parse local_up
      "JObj [(''mcpServers'', JObj ?cmd)]"] cmd cmd_entries nourl
  have w4: "checkMcpStatus tester_JSON_parse local_up command_server_text = (Inactive, [])"
    by simp
  have bad: \<open>tester_JSON_parse ''{"mcpServers":'' = None\<close> by code_simp
  from status_by_first_server [of _ tester_JSON_parse local_up] bad
  have w5: \<open>checkMcpStatus tester_JSON_parse local_up ''{"mcpServers":'' = (Unknown, [])\<close>
    by blast
  have null: "tester_JSON_parse ''null'' = Some JNull" by code_simp
  from status_by_first_server [of _ tester_JSON_parse local_up] null
  have w6: "checkMcpStatus tester_JSON_parse local_up ''null'' = (Unknown, [])"
    by blast
  from w1 w2 w3 w4 w5 w6 show ?thesis by simp
qed

text \<open>
  C8 as stated fails: the first entry is \<open>null\<close>, so it has no \<open>url\<close>, and the
  indicator is \<open>unknown\<close>, not \<open>inactive\<close>.
\<close>

theorem status_null_first_server:
  "tester_JSON_parse null_server_text = Some (JObj [(''mcpServers'', JObj [(''local'', JNull)])]) \<and>
   given JNull ''url'' = None \<and>
   checkMcpStatus tester_JSON_parse local_up null_server_text = (Unknown, []) \<and>
   Unknown \<noteq> Inactive"
  by code_simp

section \<open>\<open>downloadZip\<close> decodes hexadecimal text\<close>

lemma hexDigit_range:
  assumes "isHexDigit c"
  shows "48 \<le> (of_char c :: nat)" and "the (hexDigit c) < 16" and "(of_char c :: nat) \<le> 102"
  using assms by (auto simp: isHexDigit_def hexDigit_def Let_def split: if_splits)

lemma hexDigit_not_space: "isHexDigit c \<Longrightarrow> \<not> isWhiteSpace c"
  using hexDigit_range(1) [of c] hexDigit_range(3) [of c] by (auto simp: isWhiteSpace_def)

lemma hexDigit_not_sign: "isHexDigit c \<Longrightarrow> c \<noteq> CHR ''-'' \<and> c \<noteq> CHR ''+''"
  using hexDigit_range(1) [of c] by auto

lemma hexDigit_not_x: "isHexDigit c \<Longrightarrow> c \<noteq> CHR ''x'' \<and> c \<noteq> CHR ''X''"
  by (auto simp: isHexDigit_def hexDigit_def)

lemma parseInt16_pair:
  assumes "isHexDigit a" and "isHexDigit b"
  shows "parseInt16 [a, b] = Some (int (16 * the (hexDigit a) + the (hexDigit b)))"
  using assms hexDigit_not_space [OF assms(1)] hexDigit_not_sign [OF assms(1)]
    hexDigit_not_x [OF assms(2)]
  by (simp add: parseInt16_def strip_sign_def strip_0x_def)

lemma length_store_byte: "length (store_byte bytes k v) = length bytes"
  by (simp add: store_byte_def)

lemma nth_store_byte:
  "k < length bytes \<Longrightarrow> store_byte bytes j v ! k = (if k = j then v else bytes ! k)"
  by (simp add: store_byte_def)

lemma fill_bytes_step:
  "2 * j < length zipData \<Longrightarrow>
   fill_bytes zipData (2 * j) bytes =
     fill_bytes zipData (2 * Suc j)
       (store_byte bytes j (toUint8 (parseInt16 (substr2 zipData (2 * j)))))"
  by (subst fill_bytes.simps) simp

lemma fill_bytes_done: "length zipData \<le> i \<Longrightarrow> fill_bytes zipData i bytes = bytes"
  by (subst fill_bytes.simps) simp

lemma fill_bytes_from:
  assumes "length zipData = 2 * n" and "length bytes = n" and "j \<le> n"
  shows "length (fill_bytes zipData (2 * j) bytes) = n \<and>
         (\<forall>k < n. fill_bytes zipData (2 * j) bytes ! k =
            (if k < j then bytes ! k else toUint8 (parseInt16 (substr2 zipData (2 * k)))))"
  using assms(2,3)
proof (induction "n - j" arbitrary: j bytes)
  case 0
  with assms(1) show ?case by (simp add: fill_bytes_done)
next
  case (Suc d)
  let ?v = "toUint8 (parseInt16 (substr2 zipData (2 * j)))"
  from Suc.hyps(2) have lt: "j < n" and d: "d = n - Suc j" by simp_all
  from lt assms(1) have step: "fill_bytes zipData (2 * j) bytes
      = fill_bytes zipData (2 * Suc j) (store_byte bytes j ?v)"
    by (intro fill_bytes_step) simp
  from Suc.prems(1) have len: "length (store_byte bytes j ?v) = n"
    by (simp add: length_store_byte)
  from lt have "Suc j \<le> n" by simp
  from Suc.hyps(1) [OF d len this] Suc.prems(1) show ?case
    unfolding step by (auto simp: nth_store_byte less_Suc_eq)
qed

lemma substr2_pair:
  "2 * k + 1 < length s \<Longrightarrow> substr2 s (2 * k) = [s ! (2 * k), s ! (2 * k + 1)]"
  by (simp add: substr2_def take_Suc_conv_app_nth numeral_2_eq_2 Cons_nth_drop_Suc [symmetric]
      take_Suc)

text \<open>
  C10. For a text of even length \<open>2n\<close> made of hexadecimal digits, \<open>downloadZip\<close> makes
  a blob of type \<open>application/zip\<close> with \<open>n\<close> bytes, and byte \<open>i\<close> is what
  \<open>parseInt\<close> reads, base 16, in the characters \<open>2i\<close> and \<open>2i + 1\<close>: sixteen times
  the value of the first digit plus the value of the second.
\<close>

theorem downloadZip_hex:
  assumes "even (length zipData)" and "\<forall>c \<in> set zipData. isHexDigit c"
  shows "length (blob_bytes (downloadZip zipData filename)) = length zipData div 2 \<and>
         (\<forall>i < length zipData div 2.
            parseInt16 [zipData ! (2 * i), zipData ! (2 * i + 1)]
              = Some (int (unat (blob_bytes (downloadZip zipData filename) ! i))) \<and>
            unat (blob_bytes (downloadZip zipData filename) ! i)
              = 16 * the (hexDigit (zipData ! (2 * i))) + the (hexDigit (zipData ! (2 * i + 1)))) \<and>
         blob_type (downloadZip zipData filename) = ''application/zip''"
proof -
  from assms(1) obtain n where n: "length zipData = 2 * n" by (auto elim: evenE)
  let ?zeros = "replicate n (0 :: 8 word)"
  have bytes: "blob_bytes (downloadZip zipData filename) = fill_bytes zipData (2 * 0) ?zeros"
    using n by (simp add: downloadZip_def)
  from fill_bytes_from [OF n, of ?zeros 0]
  have len: "length (fill_bytes zipData (2 * 0) ?zeros) = n"
    and nth: "\<And>k. k < n \<Longrightarrow> fill_bytes zipData (2 * 0) ?zeros ! k
        = toUint8 (parseInt16 (substr2 zipData (2 * k)))"
    by simp_all
  have each: "parseInt16 [zipData ! (2 * i), zipData ! (2 * i + 1)]
        = Some (int (unat (fill_bytes zipData (2 * 0) ?zeros ! i))) \<and>
      unat (fill_bytes zipData (2 * 0) ?zeros ! i)
        = 16 * the (hexDigit (zipData ! (2 * i))) + the (hexDigit (zipData ! (2 * i + 1)))"
    if "i < n" for i
  proof -
    let ?a = "zipData ! (2 * i)" and ?b = "zipData ! (2 * i + 1)"
    from that n have inside: "2 * i < length zipData" "2 * i + 1 < length zipData" by simp_all
    with assms(2) have hex: "isHexDigit ?a" "isHexDigit ?b" by simp_all
    from hexDigit_range(2) [OF hex(1)] hexDigit_range(2) [OF hex(2)]
    have small: "16 * the (hexDigit ?a) + the (hexDigit ?b) < 256" by simp
    have "fill_bytes zipData (2 * 0) ?zeros ! i = toUint8 (parseInt16 [?a, ?b])"
      using nth [OF that] substr2_pair [OF inside(2)] by simp
    also have "\<dots> = of_nat (16 * the (hexDigit ?a) + the (hexDigit ?b))"
      by (simp only: parseInt16_pair [OF hex] toUint8_def option.case of_int_of_nat_eq)
    finally have "unat (fill_bytes zipData (2 * 0) ?zeros ! i)
        = 16 * the (hexDigit ?a) + the (hexDigit ?b)"
      using small by (intro of_nat_inverse) simp_all
    then show ?thesis by (simp only: parseInt16_pair [OF hex] simp_thms)
  qed
  have half: "length zipData div 2 = n" using n by simp
  have kind: "blob_type (downloadZip zipData filename) = ''application/zip''"
    by (simp add: downloadZip_def)
  from each have "\<forall>i < n.
      parseInt16 [zipData ! (2 * i), zipData ! (2 * i + 1)]
        = Some (int (unat (fill_bytes zipData (2 * 0) ?zeros ! i))) \<and>
      unat (fill_bytes zipData (2 * 0) ?zeros ! i)
        = 16 * the (hexDigit (zipData ! (2 * i))) + the (hexDigit (zipData ! (2 * i + 1)))"
    by blast
  with len kind show ?thesis
    unfolding bytes half by blast
qed

theorem downloadZip_hex_witness:
  "even (length ''504b0506'') \<and> list_all isHexDigit ''504b0506'' \<and>
   length (blob_bytes (downloadZip ''504b0506'' ''mcp_project.zip'')) = 4 \<and>
   unat (blob_bytes (downloadZip ''504b0506'' ''mcp_project.zip'') ! 1) = 75 \<and>
   parseInt16 ''4b'' = Some 75 \<and>
   blob_type (downloadZip ''504b0506'' ''mcp_project.zip'') = ''application/zip'' \<and>
   blob_bytes (downloadZip ''504b0506'' ''mcp_project.zip'') = [80, 75, 5, 6]"
proof -
  have e: "even (length ''504b0506'')" by simp
  have h: "list_all isHexDigit ''504b0506''" by code_simp
  then have h': "\<forall>c \<in> set ''504b0506''. isHexDigit c" by (simp only: list_all_iff)
  have v: "the (hexDigit CHR ''4'') = 4" "the (hexDigit CHR ''b'') = 11" by code_simp+
  have all: "blob_bytes (downloadZip ''504b0506'' ''mcp_project.zip'') = [80, 75, 5, 6]"
    by code_simp
  note inst = downloadZip_hex [OF e h', of "''mcp_project.zip''"]
  from inst have len: "length (blob_bytes (downloadZip ''504b0506'' ''mcp_project.zip'')) = 4"
    and ty: "blob_type (downloadZip ''504b0506'' ''mcp_project.zip'') = ''application/zip''"
    by simp_all
  from inst have "\<forall>i < length ''504b0506'' div 2.
        parseInt16 [''504b0506'' ! (2 * i), ''504b0506'' ! (2 * i + 1)]
          = Some (int (unat (blob_bytes (downloadZip ''504b0506'' ''mcp_project.zip'') ! i))) \<and>
        unat (blob_bytes (downloadZip ''504b0506'' ''mcp_project.zip'') ! i)
          = 16 * the (hexDigit (''504b0506'' ! (2 * i))) + the (hexDigit (''504b0506'' ! (2 * i + 1)))"
    by blast
  moreover have "(1::nat) < length ''504b0506'' div 2" by simp
  ultimately have "parseInt16 [''504b0506'' ! (2 * 1), ''504b0506'' ! (2 * 1 + 1)]
          = Some (int (unat (blob_bytes (downloadZip ''504b0506'' ''mcp_project.zip'') ! 1))) \<and>
        unat (blob_bytes (downloadZip ''504b0506'' ''mcp_project.zip'') ! 1)
          = 16 * the (hexDigit (''504b0506'' ! (2 * 1))) + the (hexDigit (''504b0506'' ! (2 * 1 + 1)))"
    by blast
  then have "unat (blob_bytes (downloadZip ''504b0506'' ''mcp_project.zip'') ! 1)
          = 16 * the (hexDigit (''504b0506'' ! (2 * 1))) + the (hexDigit (''504b0506'' ! (2 * 1 + 1)))"
    by (rule conjunct2)
  moreover have "''504b0506'' ! (2 * 1) = CHR ''4''" "''504b0506'' ! (2 * 1 + 1) = CHR ''b''"
    by simp_all
  ultimately have "unat (blob_bytes (downloadZip ''504b0506'' ''mcp_project.zip'') ! 1) = 16 * 4 + 11"
    by (simp only: v)
  then have b1: "unat (blob_bytes (downloadZip ''504b0506'' ''mcp_project.zip'') ! 1) = 75"
    by simp
  have p1: "parseInt16 ''4b'' = Some 75" by code_simp
  from e h len b1 p1 ty all show ?thesis by simp
qed

end
